theory Spec2Isabelle
  imports Main "HOL-Library.Sublist" "HOL-Library.Multiset"
begin

section \<open>JavaScript strings\<close>

text \<open>
  A JavaScript string is a sequence of UTF-16 code units; \<open>length\<close>, \<open>substring\<close>,
  \<open>str_includes\<close> and the regular expressions used by the server all work on code units.
  A string is modelled as the list of its code units, each a natural number below
  \<open>65536\<close>. \<open>js\<close> turns an ASCII literal into such a string.
\<close>

type_synonym jsstring = "nat list"

definition js :: "string \<Rightarrow> jsstring" where
  "js s = map of_char s"

text \<open>\<open>s.str_includes(t)\<close>: \<open>t\<close> occurs in \<open>s\<close> as a contiguous block.\<close>

fun str_includes :: "jsstring \<Rightarrow> jsstring \<Rightarrow> bool" where
  "str_includes [] t = (t = [])"
| "str_includes (c # cs) t = (prefix t (c # cs) \<or> str_includes cs t)"

text \<open>Decimal rendering of a non-negative integer, as \<open>String(n)\<close> gives it.\<close>

fun digits :: "nat \<Rightarrow> jsstring" where
  "digits n = (if n < 10 then [48 + n] else digits (n div 10) @ [48 + n mod 10])"

declare digits.simps [simp del]

definition String_int :: "int \<Rightarrow> jsstring" where
  "String_int i = (if i < 0 then js ''-'' @ digits (nat (- i)) else digits (nat i))"

section \<open>Error classifier (services/google-auth.ts)\<close>

text \<open>
  What a \<open>catch\<close> clause can receive: an \<open>Error\<close> object with its message, or any
  other thrown value. \<open>String_coerce\<close> is JavaScript's \<open>String(v)\<close> on the latter.
\<close>

datatype js_value =
    JUndefined | JNull | JBool bool | JInt int | JString jsstring | JObject

datatype failure = Error jsstring | NonError js_value

fun String_coerce :: "js_value \<Rightarrow> jsstring" where
  "String_coerce JUndefined = js ''undefined''"
| "String_coerce JNull = js ''null''"
| "String_coerce (JBool b) = (if b then js ''true'' else js ''false'')"
| "String_coerce (JInt i) = String_int i"
| "String_coerce (JString s) = s"
| "String_coerce JObject = js ''[object Object]''"

definition msg_auth :: jsstring where
  "msg_auth = js ''Error: Authentication failed. Please check your Google OAuth credentials and refresh token.''"

definition msg_permission :: jsstring where
  "msg_permission = js ''Error: Permission denied. Ensure the OAuth token has the required scopes (documents, drive).''"

definition msg_not_found :: jsstring where
  "msg_not_found = js ''Error: Resource not found. Please check the document or comment ID.''"

definition msg_rate_limit :: jsstring where
  "msg_rate_limit = js ''Error: Rate limit exceeded. Please wait before making more requests.''"

fun handleGoogleError :: "failure \<Rightarrow> jsstring" where
  "handleGoogleError (Error message) =
     (if str_includes message (js ''401'') \<or> str_includes message (js ''invalid_grant'') then msg_auth
      else if str_includes message (js ''403'') then msg_permission
      else if str_includes message (js ''404'') then msg_not_found
      else if str_includes message (js ''429'') then msg_rate_limit
      else if str_includes message (js ''400'') then js ''Error: Invalid request. '' @ message
      else js ''Error: '' @ message)"
| "handleGoogleError (NonError v) = js ''Error: Unexpected error occurred: '' @ String_coerce v"

text \<open>
  \<open>xs.join(sep)\<close> on an array of strings.
\<close>

fun join :: "jsstring \<Rightarrow> jsstring list \<Rightarrow> jsstring" where
  "join sep [] = []"
| "join sep [x] = x"
| "join sep (x # y # ys) = x @ sep @ join sep (y # ys)"

text \<open>
  \<open>a || b\<close> on an optional string: the right operand is taken when the left one is
  \<open>undefined\<close>, \<open>null\<close> or the empty string.
\<close>

definition or_else :: "jsstring option \<Rightarrow> jsstring \<Rightarrow> jsstring" where
  "or_else a b = (case a of None \<Rightarrow> b | Some s \<Rightarrow> if s = [] then b else s)"

text \<open>
  \<open>x || null\<close> on an optional string: the string when it is present and not empty.
\<close>

definition truthy :: "jsstring option \<Rightarrow> jsstring option" where
  "truthy a = (case a of None \<Rightarrow> None | Some s \<Rightarrow> if s = [] then None else Some s)"

text \<open>\<open>xs || []\<close> on an optional array.\<close>

definition or_empty :: "'a list option \<Rightarrow> 'a list" where
  "or_empty xs = (case xs of None \<Rightarrow> [] | Some l \<Rightarrow> l)"


text \<open>
  An optional field is \<open>None\<close> when it is \<open>undefined\<close> or \<open>null\<close>; the operators \<open>||\<close> and
  \<open>?.\<close> treat the two alike. Where a handler puts such a value into a template
  literal or into \<open>Array.join\<close>, the two differ, and the field is a \<open>nullable\<close>:
  \<open>template_string\<close> and \<open>template_number\<close> are the coercion of a template literal,
  \<open>join_item\<close> that of \<open>Array.join\<close>, which renders both as the empty string, and
  \<open>string_or\<close> is \<open>s || d\<close>.
\<close>

datatype 'a nullable = Undefined | Null | Val 'a






definition nl :: jsstring where
  "nl = [10]"

definition CHARACTER_LIMIT :: nat where
  "CHARACTER_LIMIT = 25000"

datatype ResponseFormat = MARKDOWN | JSON

section \<open>Document text extraction (tools/docs.ts)\<close>

text \<open>
  The part of the Docs API's document tree that \<open>extractTextFromBody\<close> reads. Every
  field is optional, as in the API's types. A structural element that is neither a
  paragraph nor a table (a section break, a table of contents) has both fields absent.
  A table holds rows of cells, and a cell holds structural elements again.
\<close>

datatype TextRun = TextRun (content: "jsstring option")

datatype ParagraphElement = ParagraphElement (textRun: "TextRun option")

datatype Paragraph = Paragraph (elements: "ParagraphElement list option")

datatype StructuralElement =
    StructuralElement (el_paragraph: "Paragraph option") (table: "Table option")
  and Table = Table (tableRows: "TableRow list")
  and TableRow = TableRow (tableCells: "TableCell list")
  and TableCell = TableCell (cell_content: "StructuralElement list")

datatype Body = Body (body_content: "StructuralElement list option")

text \<open>
  The inner loop over a paragraph's elements: a text run with non-empty \<open>content\<close> is
  pushed onto \<open>textParts\<close>.
\<close>

fun push_runs :: "ParagraphElement list \<Rightarrow> jsstring list \<Rightarrow> jsstring list" where
  "push_runs [] textParts = textParts"
| "push_runs (elem # rest) textParts =
     push_runs rest
       (case textRun elem of
          None \<Rightarrow> textParts
        | Some run \<Rightarrow>
            (case content run of
               None \<Rightarrow> textParts
             | Some c \<Rightarrow> if c \<noteq> [] then textParts @ [c] else textParts))"

text \<open>The outer loop over \<open>body.content\<close>.\<close>

fun push_elements :: "StructuralElement list \<Rightarrow> jsstring list \<Rightarrow> jsstring list" where
  "push_elements [] textParts = textParts"
| "push_elements (element # rest) textParts =
     (let textParts1 =
            (case el_paragraph element of
               None \<Rightarrow> textParts
             | Some p \<Rightarrow>
                 (case elements p of
                    None \<Rightarrow> textParts
                  | Some es \<Rightarrow> push_runs es textParts));
          textParts2 =
            (case table element of
               None \<Rightarrow> textParts1
             | Some t \<Rightarrow> textParts1 @ [js ''[TABLE]''])
      in push_elements rest textParts2)"

definition extractTextFromBody :: "Body option \<Rightarrow> jsstring" where
  "extractTextFromBody body =
     (case body of
        None \<Rightarrow> []
      | Some b \<Rightarrow>
          (case body_content b of
             None \<Rightarrow> []
           | Some els \<Rightarrow> join [] (push_elements els [])))"

text \<open>
  The extraction as the specification words it, to compare with the loops above: the
  literal text of a run, the runs of a paragraph in order, and for a block its
  paragraph's text followed by the marker when the block is a table.
\<close>

definition run_text :: "ParagraphElement \<Rightarrow> jsstring" where
  "run_text elem =
     (case textRun elem of
        None \<Rightarrow> []
      | Some run \<Rightarrow> (case content run of None \<Rightarrow> [] | Some c \<Rightarrow> c))"

definition paragraph_text :: "Paragraph \<Rightarrow> jsstring" where
  "paragraph_text p =
     (case elements p of None \<Rightarrow> [] | Some es \<Rightarrow> concat (map run_text es))"

definition block_text :: "StructuralElement \<Rightarrow> jsstring" where
  "block_text element =
     (case el_paragraph element of None \<Rightarrow> [] | Some p \<Rightarrow> paragraph_text p)
     @ (case table element of None \<Rightarrow> [] | Some t \<Rightarrow> js ''[TABLE]'')"

text \<open>Replacing the contents of every top-level table of a document.\<close>

definition replace_tables :: "(Table \<Rightarrow> Table) \<Rightarrow> StructuralElement list \<Rightarrow> StructuralElement list" where
  "replace_tables f els =
     map (\<lambda>element. StructuralElement (el_paragraph element) (map_option f (table element))) els"

section \<open>Tool results and remote calls\<close>

text \<open>
  What a tool handler returns to the host: a list of content items and, on the
  successful paths that set it, a \<open>structuredContent\<close> object. An awaited remote call
  either yields its response or throws; \<open>Inl\<close> carries what was thrown.
\<close>

datatype content_item =
    TextContent jsstring
  | ResourceContent (uri: jsstring) (resource_mimeType: jsstring) (blob: jsstring)
  | ImageContent (image_data: jsstring) (image_mimeType: jsstring)

datatype 'o tool_result =
  ToolResult (result_content: "content_item list") (structuredContent: "'o option")

text \<open>The \<open>catch\<close> branch shared by every handler.\<close>

definition catch_result :: "failure \<Rightarrow> 'o tool_result" where
  "catch_result error = ToolResult [TextContent (handleGoogleError error)] None"

text \<open>
  \<open>getDocsClient\<close>, \<open>getDriveClient\<close>, \<open>getSheetsClient\<close>: the module-level client is
  returned, and an \<open>Error\<close> is thrown while it is still \<open>null\<close>.
\<close>

definition getClient :: "'c option \<Rightarrow> failure + 'c" where
  "getClient client =
     (case client of
        None \<Rightarrow> Inl (Error (js ''Google auth not initialized. Call initializeGoogleAuth() first.''))
      | Some c \<Rightarrow> Inr c)"

section \<open>Spreadsheet values as a markdown table (tools/sheets.ts)\<close>

text \<open>
  A cell is a JSON value. \<open>cell_text\<close> is the arrow function of \<open>row.map\<close>: \<open>null\<close> and
  \<open>undefined\<close> give the empty string, anything else its string coercion.
\<close>

definition cell_text :: "js_value \<Rightarrow> jsstring" where
  "cell_text cell = (if cell = JNull \<or> cell = JUndefined then [] else String_coerce cell)"

text \<open>The loop over the rows, pushing one table line per row.\<close>

fun push_rows :: "js_value list list \<Rightarrow> jsstring list \<Rightarrow> jsstring list" where
  "push_rows [] lines = lines"
| "push_rows (row # rest) lines =
     (let cells = map cell_text row
      in push_rows rest (lines @ [js ''| '' @ join (js '' | '') cells @ js '' |'']))"

text \<open>The array \<open>lines\<close> as it stands before the final \<open>join\<close>, for a non-empty grid.\<close>

definition formatValuesLines :: "js_value list list \<Rightarrow> jsstring \<Rightarrow> jsstring list" where
  "formatValuesLines values rng =
     (let lines0 = [js ''## Data from '' @ rng, []];
          headers = map (\<lambda>(i, _). js ''Col '' @ digits (i + 1)) (enumerate 0 (values ! 0));
          lines1 = lines0 @ [js ''| '' @ join (js '' | '') headers @ js '' |''];
          lines2 = lines1 @ [js ''| '' @ join (js '' | '') (map (\<lambda>_. js ''---'') headers) @ js '' |'']
      in push_rows values lines2)"

definition formatValuesAsMarkdown :: "js_value list list option \<Rightarrow> jsstring \<Rightarrow> jsstring" where
  "formatValuesAsMarkdown values rng =
     (case values of
        None \<Rightarrow> js ''No data found in range: '' @ rng
      | Some vs \<Rightarrow>
          if length vs = 0 then js ''No data found in range: '' @ rng
          else join nl (formatValuesLines vs rng))"

subsection \<open>The handler of \<open>sheets_get_values\<close>\<close>

datatype GetValuesInput =
  GetValuesInput (spreadsheet_id: jsstring) (in_range: jsstring)
    (major_dimension: jsstring) (response_format: ResponseFormat)

text \<open>The fields of \<open>response.data\<close> that the handler reads.\<close>

datatype ValueRange =
  ValueRange (vr_range: "jsstring option") (vr_majorDimension: "jsstring option")
    (vr_values: "js_value list list option")

datatype GetValuesOutput =
  GetValuesOutput (out_range: jsstring) (out_majorDimension: jsstring)
    (out_values: "js_value list list")

text \<open>
  The responses of the other calls of the Sheets API, with the fields that the handlers
  read. A request of a batch update and a reply to it are JSON objects that the handlers
  pass on without looking inside.
\<close>

datatype GridProperties =
  GridProperties (grid_rowCount: "int option") (grid_columnCount: "int option")

datatype SheetProperties =
  SheetProperties (prop_sheetId: "int nullable") (prop_title: "jsstring nullable")
    (prop_sheetType: "jsstring option") (prop_gridProperties: "GridProperties option")

datatype Sheet = Sheet (sheet_properties: "SheetProperties option")

datatype SpreadsheetProperties =
  SpreadsheetProperties (ss_title: "jsstring option") (ss_locale: "jsstring option")

datatype Spreadsheet =
  Spreadsheet (ss_spreadsheetId: "jsstring nullable")
    (ss_properties: "SpreadsheetProperties option") (ss_sheets: "Sheet list option")
    (ss_spreadsheetUrl: "jsstring nullable")

datatype BatchGetValuesResponse =
  BatchGetValuesResponse (bgr_spreadsheetId: "jsstring option")
    (bgr_valueRanges: "ValueRange list option")

datatype UpdateValuesResponse =
  UpdateValuesResponse (uvr_spreadsheetId: "jsstring option") (uvr_updatedRange: "jsstring option")
    (uvr_updatedRows: "int option") (uvr_updatedColumns: "int option")
    (uvr_updatedCells: "int option")

datatype AppendValuesResponse =
  AppendValuesResponse (avr_spreadsheetId: "jsstring option") (avr_tableRange: "jsstring option")
    (avr_updates: "UpdateValuesResponse option")

datatype BatchUpdateSpreadsheetResponse =
  BatchUpdateSpreadsheetResponse (busr_spreadsheetId: "jsstring option")
    (busr_replies: "js_value list option")

datatype ClearValuesResponse =
  ClearValuesResponse (cvr_spreadsheetId: "jsstring option") (cvr_clearedRange: "jsstring option")

text \<open>The request body of \<open>spreadsheets.create\<close>.\<close>

datatype SheetRequest = SheetRequest (req_sheetId: nat) (req_sheet_title: jsstring)

datatype SpreadsheetRequest =
  SpreadsheetRequest (req_title: jsstring) (req_sheets: "SheetRequest list option")

text \<open>
  The sheets client: \<open>spreadsheets.get\<close> (spreadsheet, whether to include the grid
  data), \<open>spreadsheets.values.get\<close> (spreadsheet, range, major dimension),
  \<open>spreadsheets.values.batchGet\<close> (spreadsheet, ranges, major dimension),
  \<open>spreadsheets.values.update\<close> (spreadsheet, range, value input option, values),
  \<open>spreadsheets.values.append\<close> (spreadsheet, range, value input option, insert data
  option, values), \<open>spreadsheets.create\<close> (request body), \<open>spreadsheets.batchUpdate\<close>
  (spreadsheet, requests) and \<open>spreadsheets.values.clear\<close> (spreadsheet, range).
\<close>

datatype SheetsClient =
  SheetsClient
    (spreadsheets_get: "jsstring \<Rightarrow> bool \<Rightarrow> failure + Spreadsheet")
    (values_get: "jsstring \<Rightarrow> jsstring \<Rightarrow> jsstring \<Rightarrow> failure + ValueRange")
    (values_batchGet: "jsstring \<Rightarrow> jsstring list \<Rightarrow> jsstring \<Rightarrow> failure + BatchGetValuesResponse")
    (values_update:
       "jsstring \<Rightarrow> jsstring \<Rightarrow> jsstring \<Rightarrow> js_value list list \<Rightarrow> failure + UpdateValuesResponse")
    (values_append:
       "jsstring \<Rightarrow> jsstring \<Rightarrow> jsstring \<Rightarrow> jsstring \<Rightarrow> js_value list list
          \<Rightarrow> failure + AppendValuesResponse")
    (spreadsheets_create: "SpreadsheetRequest \<Rightarrow> failure + Spreadsheet")
    (spreadsheets_batchUpdate:
       "jsstring \<Rightarrow> js_value list \<Rightarrow> failure + BatchUpdateSpreadsheetResponse")
    (values_clear: "jsstring \<Rightarrow> jsstring \<Rightarrow> failure + ClearValuesResponse")

definition get_values_output :: "GetValuesInput \<Rightarrow> ValueRange \<Rightarrow> GetValuesOutput" where
  "get_values_output params data =
     GetValuesOutput
       (or_else (vr_range data) (in_range params))
       (or_else (vr_majorDimension data) (major_dimension params))
       (or_empty (vr_values data))"

text \<open>
  The markdown branch of \<open>textOutput\<close>: a rendering longer than \<open>CHARACTER_LIMIT\<close> is
  cut and the marker appended.
\<close>

definition get_values_markdown :: "GetValuesOutput \<Rightarrow> jsstring" where
  "get_values_markdown output =
     (let textOutput = formatValuesAsMarkdown (Some (out_values output)) (out_range output)
      in if length textOutput > CHARACTER_LIMIT
         then take CHARACTER_LIMIT textOutput @ nl @ nl @ js ''[Data truncated...]''
         else textOutput)"

text \<open>\<open>textOutput\<close>, with \<open>JSON.stringify\<close> a parameter of the model.\<close>

definition get_values_textOutput ::
  "(GetValuesOutput \<Rightarrow> jsstring) \<Rightarrow> ResponseFormat \<Rightarrow> GetValuesOutput \<Rightarrow> jsstring" where
  "get_values_textOutput stringify format output =
     (if format = MARKDOWN then get_values_markdown output else stringify output)"

definition sheets_get_values ::
  "(GetValuesOutput \<Rightarrow> jsstring) \<Rightarrow> SheetsClient option \<Rightarrow> GetValuesInput
     \<Rightarrow> GetValuesOutput tool_result" where
  "sheets_get_values stringify sheetsClient params =
     (case getClient sheetsClient of
        Inl error \<Rightarrow> catch_result error
      | Inr sheets \<Rightarrow>
          (case values_get sheets (spreadsheet_id params) (in_range params) (major_dimension params) of
             Inl error \<Rightarrow> catch_result error
           | Inr data \<Rightarrow>
               (let output = get_values_output params data;
                    textOutput = get_values_textOutput stringify (response_format params) output
                in ToolResult [TextContent textOutput] (Some output))))"

subsection \<open>\<open>formatSheetInfo\<close> and the handler of \<open>sheets_get_spreadsheet\<close>\<close>









subsection \<open>The handler of \<open>sheets_batch_get_values\<close>\<close>

datatype BatchGetValuesInput =
  BatchGetValuesInput (bg_spreadsheet_id: jsstring) (bg_ranges: "jsstring list")
    (bg_major_dimension: jsstring) (bg_response_format: ResponseFormat)

datatype BatchValueRange =
  BatchValueRange (bvr_range: "jsstring option") (bvr_majorDimension: "jsstring option")
    (bvr_values: "js_value list list")

datatype BatchGetValuesOutput =
  BatchGetValuesOutput (bgo_spreadsheetId: jsstring) (bgo_valueRanges: "BatchValueRange list")

definition batch_get_values_output ::
  "BatchGetValuesInput \<Rightarrow> BatchGetValuesResponse \<Rightarrow> BatchGetValuesOutput" where
  "batch_get_values_output params data =
     BatchGetValuesOutput
       (or_else (bgr_spreadsheetId data) (bg_spreadsheet_id params))
       (map (\<lambda>vr. BatchValueRange (vr_range vr) (vr_majorDimension vr) (or_empty (vr_values vr)))
          (or_empty (bgr_valueRanges data)))"

definition batch_get_values_untruncated :: "BatchGetValuesOutput \<Rightarrow> jsstring" where
  "batch_get_values_untruncated output =
     (let rangeOutputs =
            map (\<lambda>vr. formatValuesAsMarkdown (Some (bvr_values vr))
                          (or_else (bvr_range vr) (js ''Unknown'')))
              (bgo_valueRanges output)
      in join (nl @ nl @ js ''---'' @ nl @ nl) rangeOutputs)"

definition batch_get_values_markdown :: "BatchGetValuesOutput \<Rightarrow> jsstring" where
  "batch_get_values_markdown output =
     (let textOutput = batch_get_values_untruncated output
      in if length textOutput > CHARACTER_LIMIT
         then take CHARACTER_LIMIT textOutput @ nl @ nl @ js ''[Data truncated...]''
         else textOutput)"

definition sheets_batch_get_values ::
  "(BatchGetValuesOutput \<Rightarrow> jsstring) \<Rightarrow> SheetsClient option \<Rightarrow> BatchGetValuesInput
     \<Rightarrow> BatchGetValuesOutput tool_result" where
  "sheets_batch_get_values stringify sheetsClient params =
     (case getClient sheetsClient of
        Inl error \<Rightarrow> catch_result error
      | Inr sheets \<Rightarrow>
          (case values_batchGet sheets (bg_spreadsheet_id params) (bg_ranges params)
                  (bg_major_dimension params) of
             Inl error \<Rightarrow> catch_result error
           | Inr data \<Rightarrow>
               (let output = batch_get_values_output params data;
                    textOutput =
                      (if bg_response_format params = MARKDOWN
                       then batch_get_values_markdown output
                       else stringify output)
                in ToolResult [TextContent textOutput] (Some output))))"

subsection \<open>The handlers of \<open>sheets_update_values\<close> and \<open>sheets_append_values\<close>\<close>












subsection \<open>The handler of \<open>sheets_create_spreadsheet\<close>\<close>








subsection \<open>The handlers of \<open>sheets_batch_update\<close> and \<open>sheets_clear_values\<close>\<close>











section \<open>The handler of \<open>docs_get_document\<close> (tools/docs.ts)\<close>

datatype GetDocumentInput =
  GetDocumentInput (document_id: jsstring) (doc_response_format: ResponseFormat)

datatype Document =
  Document (doc_documentId: "jsstring option") (doc_title: "jsstring option")
    (doc_body: "Body option") (doc_revisionId: "jsstring option")

datatype GetDocumentOutput =
  GetDocumentOutput (documentId: jsstring) (title: jsstring) (textContent: jsstring)
    (revisionId: "jsstring option")

text \<open>
  A request of \<open>documents.batchUpdate\<close>: the text insertion that
  \<open>docs_create_document\<close> builds, or a JSON object handed over by the caller of
  \<open>docs_batch_update\<close>. The replies are JSON objects as well.
\<close>

datatype Request =
    InsertText (location_index: nat) (insert_text: jsstring)
  | OtherRequest js_value

datatype WriteControl =
  WriteControl (requiredRevisionId: "jsstring option") (targetRevisionId: "jsstring option")

datatype BatchUpdateDocumentResponse =
  BatchUpdateDocumentResponse (budr_documentId: "jsstring option")
    (budr_replies: "js_value list option") (budr_writeControl: "WriteControl option")

text \<open>
  The docs client: \<open>documents.get\<close> (document), \<open>documents.create\<close> (title) and
  \<open>documents.batchUpdate\<close> (document, requests).
\<close>

datatype DocsClient =
  DocsClient (documents_get: "jsstring \<Rightarrow> failure + Document")
    (documents_create: "jsstring \<Rightarrow> failure + Document")
    (documents_batchUpdate: "jsstring \<Rightarrow> Request list \<Rightarrow> failure + BatchUpdateDocumentResponse")

definition get_document_output :: "GetDocumentInput \<Rightarrow> Document \<Rightarrow> GetDocumentOutput" where
  "get_document_output params doc =
     GetDocumentOutput
       (or_else (doc_documentId doc) (document_id params))
       (or_else (doc_title doc) (js ''Untitled''))
       (extractTextFromBody (doc_body doc))
       (doc_revisionId doc)"

text \<open>The lines above the content in the markdown rendering.\<close>

definition get_document_header :: "GetDocumentOutput \<Rightarrow> jsstring list" where
  "get_document_header output =
     [js ''# '' @ title output,
      [],
      js ''**Document ID**: '' @ documentId output,
      js ''**Revision ID**: '' @ or_else (revisionId output) (js ''N/A''),
      [],
      js ''## Content'',
      []]"

definition get_document_markdown :: "GetDocumentOutput \<Rightarrow> jsstring" where
  "get_document_markdown output =
     join nl (get_document_header output @
       [if length (textContent output) > CHARACTER_LIMIT
        then take CHARACTER_LIMIT (textContent output) @ nl @ nl @ js ''[Content truncated...]''
        else textContent output])"

definition get_document_textOutput ::
  "(GetDocumentOutput \<Rightarrow> jsstring) \<Rightarrow> ResponseFormat \<Rightarrow> GetDocumentOutput \<Rightarrow> jsstring" where
  "get_document_textOutput stringify format output =
     (if format = MARKDOWN then get_document_markdown output else stringify output)"

text \<open>
  The same template with the whole text content: the rendering before any cut, whose
  length is the natural length of the output.
\<close>

definition get_document_untruncated :: "GetDocumentOutput \<Rightarrow> jsstring" where
  "get_document_untruncated output =
     join nl (get_document_header output @ [textContent output])"

definition docs_get_document ::
  "(GetDocumentOutput \<Rightarrow> jsstring) \<Rightarrow> DocsClient option \<Rightarrow> GetDocumentInput
     \<Rightarrow> GetDocumentOutput tool_result" where
  "docs_get_document stringify docsClient params =
     (case getClient docsClient of
        Inl error \<Rightarrow> catch_result error
      | Inr docs \<Rightarrow>
          (case documents_get docs (document_id params) of
             Inl error \<Rightarrow> catch_result error
           | Inr doc \<Rightarrow>
               (let output = get_document_output params doc;
                    textOutput = get_document_textOutput stringify (doc_response_format params) output
                in ToolResult [TextContent textOutput] (Some output))))"

section \<open>The handlers of \<open>docs_create_document\<close> and \<open>docs_batch_update\<close>\<close>











section \<open>Buffers: base64 and UTF-8\<close>

text \<open>
  \<open>decodeBase64\<close> goes through Node's \<open>Buffer\<close>. A buffer is the list of its bytes,
  each below \<open>256\<close>. The three library operations are modelled as Node documents them.

  \<open>Buffer.from(s, "base64")\<close> reads the characters up to the first \<open>=\<close>, skips every
  character outside the base64 alphabets (it accepts the standard and the URL-safe
  one), and turns each group of four six-bit values into three bytes; a last group of
  two or three values gives one or two bytes.
\<close>

type_synonym buffer = "nat list"

definition unbase64 :: "nat \<Rightarrow> nat option" where
  "unbase64 c =
     (if 65 \<le> c \<and> c \<le> 90 then Some (c - 65)
      else if 97 \<le> c \<and> c \<le> 122 then Some (c - 71)
      else if 48 \<le> c \<and> c \<le> 57 then Some (c + 4)
      else if c = 43 \<or> c = 45 then Some 62
      else if c = 47 \<or> c = 95 then Some 63
      else None)"

fun sextets_to_bytes :: "nat list \<Rightarrow> buffer" where
  "sextets_to_bytes (a # b # c # d # rest) =
     (a * 4 + b div 16) # ((b mod 16) * 16 + c div 4) # ((c mod 4) * 64 + d)
       # sextets_to_bytes rest"
| "sextets_to_bytes [a, b, c] = [a * 4 + b div 16, (b mod 16) * 16 + c div 4]"
| "sextets_to_bytes [a, b] = [a * 4 + b div 16]"
| "sextets_to_bytes [a] = []"
| "sextets_to_bytes [] = []"

definition Buffer_from_base64 :: "jsstring \<Rightarrow> buffer" where
  "Buffer_from_base64 s =
     sextets_to_bytes (List.map_filter unbase64 (takeWhile (\<lambda>c. c \<noteq> 61) s))"

text \<open>
  \<open>buf.toString("utf-8")\<close> decodes UTF-8 and never fails: a byte that cannot start or
  continue a well-formed sequence ends the sequence read so far, which becomes one
  U+FFFD, and is read again as a first byte. The second byte of a three- or four-byte
  sequence has a narrower range after \<open>E0\<close>, \<open>ED\<close>, \<open>F0\<close> and \<open>F4\<close>, which excludes
  overlong forms, surrogates and code points above U+10FFFF. The resulting code points
  are written as UTF-16 code units, a code point above U+FFFF as a surrogate pair.
\<close>

definition REPLACEMENT :: nat where
  "REPLACEMENT = 0xFFFD"

definition continuation :: "nat \<Rightarrow> bool" where
  "continuation b = (0x80 \<le> b \<and> b \<le> 0xBF)"

definition second_of3 :: "nat \<Rightarrow> nat \<Rightarrow> bool" where
  "second_of3 b b1 =
     ((if b = 0xE0 then 0xA0 else 0x80) \<le> b1 \<and> b1 \<le> (if b = 0xED then 0x9F else 0xBF))"

definition second_of4 :: "nat \<Rightarrow> nat \<Rightarrow> bool" where
  "second_of4 b b1 =
     ((if b = 0xF0 then 0x90 else 0x80) \<le> b1 \<and> b1 \<le> (if b = 0xF4 then 0x8F else 0xBF))"

fun utf8_decode :: "buffer \<Rightarrow> nat list" where
  "utf8_decode [] = []"
| "utf8_decode (b # bs) =
     (if b < 0x80 then b # utf8_decode bs
      else if 0xC2 \<le> b \<and> b \<le> 0xDF then
        (case bs of
           [] \<Rightarrow> [REPLACEMENT]
         | b1 # r1 \<Rightarrow>
             if continuation b1
             then ((b - 0xC0) * 64 + (b1 - 0x80)) # utf8_decode r1
             else REPLACEMENT # utf8_decode bs)
      else if 0xE0 \<le> b \<and> b \<le> 0xEF then
        (case bs of
           [] \<Rightarrow> [REPLACEMENT]
         | b1 # r1 \<Rightarrow>
             if second_of3 b b1 then
               (case r1 of
                  [] \<Rightarrow> [REPLACEMENT]
                | b2 # r2 \<Rightarrow>
                    if continuation b2
                    then ((b - 0xE0) * 4096 + (b1 - 0x80) * 64 + (b2 - 0x80)) # utf8_decode r2
                    else REPLACEMENT # utf8_decode r1)
             else REPLACEMENT # utf8_decode bs)
      else if 0xF0 \<le> b \<and> b \<le> 0xF4 then
        (case bs of
           [] \<Rightarrow> [REPLACEMENT]
         | b1 # r1 \<Rightarrow>
             if second_of4 b b1 then
               (case r1 of
                  [] \<Rightarrow> [REPLACEMENT]
                | b2 # r2 \<Rightarrow>
                    if continuation b2 then
                      (case r2 of
                         [] \<Rightarrow> [REPLACEMENT]
                       | b3 # r3 \<Rightarrow>
                           if continuation b3
                           then ((b - 0xF0) * 262144 + (b1 - 0x80) * 4096 + (b2 - 0x80) * 64
                                   + (b3 - 0x80)) # utf8_decode r3
                           else REPLACEMENT # utf8_decode r2)
                    else REPLACEMENT # utf8_decode r1)
             else REPLACEMENT # utf8_decode bs)
      else REPLACEMENT # utf8_decode bs)"

definition utf16_units :: "nat \<Rightarrow> jsstring" where
  "utf16_units cp =
     (if cp < 0x10000 then [cp]
      else [0xD800 + (cp - 0x10000) div 1024, 0xDC00 + (cp - 0x10000) mod 1024])"

definition Buffer_toString_utf8 :: "buffer \<Rightarrow> jsstring" where
  "Buffer_toString_utf8 buf = concat (map utf16_units (utf8_decode buf))"

text \<open>
  The encoding direction, which the server never runs but the sender of a message does:
  \<open>Buffer.from(s, "utf-8")\<close> pairs surrogates into code points (a lone surrogate becomes
  U+FFFD) and writes each code point in one to four bytes; \<open>buf.toString("base64")\<close>
  writes three bytes as four characters of the standard alphabet and pads the last
  group with \<open>=\<close>.
\<close>

definition high_surrogate :: "nat \<Rightarrow> bool" where
  "high_surrogate u = (0xD800 \<le> u \<and> u \<le> 0xDBFF)"

definition low_surrogate :: "nat \<Rightarrow> bool" where
  "low_surrogate u = (0xDC00 \<le> u \<and> u \<le> 0xDFFF)"

definition lone :: "nat \<Rightarrow> nat" where
  "lone u = (if high_surrogate u \<or> low_surrogate u then REPLACEMENT else u)"

fun code_points :: "jsstring \<Rightarrow> nat list" where
  "code_points [] = []"
| "code_points [u] = [lone u]"
| "code_points (u # v # rest) =
     (if high_surrogate u \<and> low_surrogate v
      then (0x10000 + (u - 0xD800) * 1024 + (v - 0xDC00)) # code_points rest
      else lone u # code_points (v # rest))"

definition utf8_bytes :: "nat \<Rightarrow> buffer" where
  "utf8_bytes cp =
     (if cp < 0x80 then [cp]
      else if cp < 0x800 then [0xC0 + cp div 64, 0x80 + cp mod 64]
      else if cp < 0x10000 then
        [0xE0 + cp div 4096, 0x80 + cp div 64 mod 64, 0x80 + cp mod 64]
      else
        [0xF0 + cp div 262144, 0x80 + cp div 4096 mod 64, 0x80 + cp div 64 mod 64,
         0x80 + cp mod 64])"

definition Buffer_from_utf8 :: "jsstring \<Rightarrow> buffer" where
  "Buffer_from_utf8 s = concat (map utf8_bytes (code_points s))"

definition base64_char :: "nat \<Rightarrow> nat" where
  "base64_char n =
     (if n < 26 then 65 + n
      else if n < 52 then 71 + n
      else if n < 62 then n - 4
      else if n = 62 then 43
      else 47)"

fun Buffer_toString_base64 :: "buffer \<Rightarrow> jsstring" where
  "Buffer_toString_base64 (x # y # z # rest) =
     base64_char (x div 4) # base64_char ((x mod 4) * 16 + y div 16)
       # base64_char ((y mod 16) * 4 + z div 64) # base64_char (z mod 64)
       # Buffer_toString_base64 rest"
| "Buffer_toString_base64 [x, y] =
     [base64_char (x div 4), base64_char ((x mod 4) * 16 + y div 16),
      base64_char ((y mod 16) * 4), 61]"
| "Buffer_toString_base64 [x] = [base64_char (x div 4), base64_char ((x mod 4) * 16), 61, 61]"
| "Buffer_toString_base64 [] = []"

text \<open>
  The URL-safe encoding of a string: its UTF-8 bytes in standard base64, with \<open>+\<close>
  replaced by \<open>-\<close> and \<open>/\<close> by \<open>_\<close>.
\<close>

definition base64url_encode :: "jsstring \<Rightarrow> jsstring" where
  "base64url_encode s =
     map (\<lambda>c. if c = 43 then 45 else if c = 47 then 95 else c)
       (Buffer_toString_base64 (Buffer_from_utf8 s))"

text \<open>
  A Unicode scalar value is a code point that is not a surrogate. A well-formed string
  has every code unit below \<open>65536\<close> and every surrogate as half of a pair: these
  are the strings that have a UTF-8 encoding.
\<close>

definition scalar :: "nat \<Rightarrow> bool" where
  "scalar cp = (cp < 0x110000 \<and> \<not> (0xD800 \<le> cp \<and> cp \<le> 0xDFFF))"

fun well_formed :: "jsstring \<Rightarrow> bool" where
  "well_formed [] = True"
| "well_formed [u] = (u < 0x10000 \<and> \<not> high_surrogate u \<and> \<not> low_surrogate u)"
| "well_formed (u # v # rest) =
     (if high_surrogate u then low_surrogate v \<and> well_formed rest
      else u < 0x10000 \<and> \<not> low_surrogate u \<and> well_formed (v # rest))"

section \<open>Message bodies (tools/gmail.ts)\<close>

text \<open>\<open>s.replace(/c/g, "d")\<close> for single characters \<open>c\<close> and \<open>d\<close>.\<close>

definition replace_char :: "nat \<Rightarrow> nat \<Rightarrow> jsstring \<Rightarrow> jsstring" where
  "replace_char c d s = map (\<lambda>x. if x = c then d else x) s"

definition decodeBase64 :: "jsstring \<Rightarrow> jsstring" where
  "decodeBase64 data =
     Buffer_toString_utf8 (Buffer_from_base64 (replace_char 95 47 (replace_char 45 43 data)))"

text \<open>
  The HTML fallback strips markup with three string operations.
  \<open>replace(/<[^>]*>/g, "")\<close> removes every \<open><\<close> together with the text up to the next
  \<open>>\<close>; a \<open><\<close> that no \<open>>\<close> follows stays. \<open>replace(/\s+/g, " ")\<close> turns every run of
  white space into one space, and \<open>trim()\<close> removes white space at both ends.
  \<open>is_space\<close> is the white space of JavaScript's \<open>\s\<close> and \<open>trim\<close>.
\<close>

definition is_space :: "nat \<Rightarrow> bool" where
  "is_space c =
     (c \<in> {9, 10, 11, 12, 13, 32, 0xA0, 0x1680, 0x2028, 0x2029, 0x202F, 0x205F, 0x3000, 0xFEFF}
      \<or> (0x2000 \<le> c \<and> c \<le> 0x200A))"

fun strip_tags :: "jsstring \<Rightarrow> jsstring" and skip_tag :: "jsstring \<Rightarrow> jsstring" where
  "strip_tags [] = []"
| "strip_tags (c # cs) = (if c = 60 \<and> 62 \<in> set cs then skip_tag cs else c # strip_tags cs)"
| "skip_tag [] = []"
| "skip_tag (c # cs) = (if c = 62 then strip_tags cs else skip_tag cs)"

fun collapse_spaces :: "jsstring \<Rightarrow> jsstring" and skip_spaces :: "jsstring \<Rightarrow> jsstring" where
  "collapse_spaces [] = []"
| "collapse_spaces (c # cs) = (if is_space c then 32 # skip_spaces cs else c # collapse_spaces cs)"
| "skip_spaces [] = []"
| "skip_spaces (c # cs) = (if is_space c then skip_spaces cs else c # collapse_spaces cs)"

definition trim :: "jsstring \<Rightarrow> jsstring" where
  "trim s = rev (dropWhile is_space (rev (dropWhile is_space s)))"

definition strip_html :: "jsstring \<Rightarrow> jsstring" where
  "strip_html html = trim (collapse_spaces (strip_tags html))"

text \<open>The part of the Gmail API's message tree that the server reads.\<close>

datatype MessagePartHeader =
  MessagePartHeader (header_name: "jsstring option") (header_value: "jsstring option")

datatype MessagePartBody = MessagePartBody (data: "jsstring option")

datatype MessagePart =
  MessagePart (mimeType: "jsstring option") (headers: "MessagePartHeader list option")
    (body: "MessagePartBody option") (parts: "MessagePart list option")

text \<open>\<open>part.body?.data\<close> where it is truthy: present and not the empty string.\<close>

definition truthy_data :: "MessagePartBody option \<Rightarrow> jsstring option" where
  "truthy_data b =
     (case b of
        None \<Rightarrow> None
      | Some bd \<Rightarrow> (case data bd of None \<Rightarrow> None | Some d \<Rightarrow> if d = [] then None else Some d))"

text \<open>
  The first two loops over \<open>payload.parts\<close>. Each gives the value the function returns
  from inside the loop, or \<open>None\<close> when the loop runs to its end.
\<close>

fun prefer_plain :: "MessagePart list \<Rightarrow> jsstring option" where
  "prefer_plain [] = None"
| "prefer_plain (part # rest) =
     (case truthy_data (body part) of
        Some d \<Rightarrow>
          if mimeType part = Some (js ''text/plain'') then Some (decodeBase64 d)
          else prefer_plain rest
      | None \<Rightarrow> prefer_plain rest)"

fun fallback_html :: "MessagePart list \<Rightarrow> jsstring option" where
  "fallback_html [] = None"
| "fallback_html (part # rest) =
     (case truthy_data (body part) of
        Some d \<Rightarrow>
          if mimeType part = Some (js ''text/html'') then Some (strip_html (decodeBase64 d))
          else fallback_html rest
      | None \<Rightarrow> fallback_html rest)"

text \<open>
  \<open>extractBody\<close> on a payload that is present, and its third loop, which recurses into
  the parts and returns the first result that is not the empty string.
\<close>

fun extractBody_part :: "MessagePart \<Rightarrow> jsstring"
  and recurse_nested :: "MessagePart list \<Rightarrow> jsstring option" where
  "extractBody_part (MessagePart mt hs b ps) =
     (case truthy_data b of
        Some d \<Rightarrow> decodeBase64 d
      | None \<Rightarrow>
          (case ps of
             None \<Rightarrow> []
           | Some sub \<Rightarrow>
               (case prefer_plain sub of
                  Some text \<Rightarrow> text
                | None \<Rightarrow>
                    (case fallback_html sub of
                       Some text \<Rightarrow> text
                     | None \<Rightarrow>
                         (case recurse_nested sub of
                            Some nested \<Rightarrow> nested
                          | None \<Rightarrow> [])))))"
| "recurse_nested [] = None"
| "recurse_nested (part # rest) =
     (let nested = extractBody_part part
      in if nested \<noteq> [] then Some nested else recurse_nested rest)"

definition extractBody :: "MessagePart option \<Rightarrow> jsstring" where
  "extractBody payload = (case payload of None \<Rightarrow> [] | Some p \<Rightarrow> extractBody_part p)"

text \<open>
  Notions of the specification, to state the selection policy: a plain-text part and an
  HTML part (with content), and the parts that occur anywhere in a tree.
\<close>

definition plain_part :: "MessagePart \<Rightarrow> bool" where
  "plain_part part = (mimeType part = Some (js ''text/plain'') \<and> truthy_data (body part) \<noteq> None)"

definition html_part :: "MessagePart \<Rightarrow> bool" where
  "html_part part = (mimeType part = Some (js ''text/html'') \<and> truthy_data (body part) \<noteq> None)"

definition part_content :: "MessagePart \<Rightarrow> jsstring" where
  "part_content part = (case truthy_data (body part) of None \<Rightarrow> [] | Some d \<Rightarrow> decodeBase64 d)"

fun descendants :: "MessagePart \<Rightarrow> MessagePart list"
  and descendants_list :: "MessagePart list \<Rightarrow> MessagePart list" where
  "descendants (MessagePart mt hs b ps) =
     (case ps of None \<Rightarrow> [] | Some sub \<Rightarrow> descendants_list sub)"
| "descendants_list [] = []"
| "descendants_list (part # rest) = part # descendants part @ descendants_list rest"

section \<open>Gmail listing tools (tools/gmail.ts)\<close>

text \<open>
  \<open>toLowerCase\<close> on the ASCII letters, which is all that header names contain; other
  code units are left as they are.
\<close>

definition toLowerCase :: "jsstring \<Rightarrow> jsstring" where
  "toLowerCase s = map (\<lambda>c. if 65 \<le> c \<and> c \<le> 90 then c + 32 else c) s"

definition getHeader :: "MessagePartHeader list option \<Rightarrow> jsstring \<Rightarrow> jsstring option" where
  "getHeader hs name =
     (case hs of
        None \<Rightarrow> None
      | Some hl \<Rightarrow>
          (case find (\<lambda>h. case header_name h of
                              None \<Rightarrow> False
                            | Some n \<Rightarrow> toLowerCase n = toLowerCase name) hl of
             None \<Rightarrow> None
           | Some h \<Rightarrow> header_value h))"

text \<open>A double quote, which a string literal of the theory cannot hold.\<close>

definition dq :: jsstring where
  "dq = [34]"

subsection \<open>\<open>Promise.all\<close>\<close>

text \<open>
  The detail fetches of a listing run concurrently, and \<open>Promise.all\<close> gathers them.
  Each task is given by its outcome; \<open>order\<close> lists the indices of the tasks in the
  order in which they settle. As ECMAScript defines it, a fulfilled task stores its
  value in the slot of its own index, and the first task to reject rejects the whole.
  \<open>Promise_all\<close> is \<open>None\<close> while some task has not settled, so that the \<open>await\<close> on it
  does not return.
\<close>

fun settle :: "nat list \<Rightarrow> (failure + 'a) list \<Rightarrow> 'a option list \<Rightarrow> failure + 'a option list" where
  "settle [] tasks slots = Inr slots"
| "settle (i # order) tasks slots =
     (if i < length tasks then
        (case tasks ! i of
           Inl error \<Rightarrow> Inl error
         | Inr v \<Rightarrow> settle order tasks (slots[i := Some v]))
      else settle order tasks slots)"

definition Promise_all :: "nat list \<Rightarrow> (failure + 'a) list \<Rightarrow> (failure + 'a list) option" where
  "Promise_all order tasks =
     (case settle order tasks (replicate (length tasks) None) of
        Inl error \<Rightarrow> Some (Inl error)
      | Inr slots \<Rightarrow> map_option Inr (those slots))"

subsection \<open>The Gmail client\<close>

datatype ListParams =
  ListParams (userId: jsstring) (maxResults: int) (q_param: "jsstring option")
    (labelIds: "jsstring list option") (pageToken: "jsstring option")

datatype GetParams =
  GetParams (get_userId: jsstring) (get_id: "jsstring option") (get_format: jsstring)
    (metadataHeaders: "jsstring list option")

datatype MessageRef = MessageRef (ref_id: "jsstring option") (ref_threadId: "jsstring option")

datatype Message =
  Message (payload: "MessagePart option") (snippet: "jsstring option")
    (msg_labelIds: "jsstring list option") (msg_id: "jsstring option")
    (msg_threadId: "jsstring option")

datatype ListMessagesResponse =
  ListMessagesResponse (messages: "MessageRef list option") (nextPageToken: "jsstring option")

datatype ThreadRef = ThreadRef (thread_id: "jsstring option") (thread_snippet: "jsstring option")

datatype Thread =
  Thread (thread_messages: "Message list option") (thread_data_id: "jsstring option")

datatype ListThreadsResponse =
  ListThreadsResponse (threads: "ThreadRef list option") (threads_nextPageToken: "jsstring option")

datatype Label =
  Label (label_id: "jsstring option") (label_name: "jsstring option")
    (label_type: "jsstring option")

datatype GmailClient =
  GmailClient
    (messages_list: "ListParams \<Rightarrow> failure + ListMessagesResponse")
    (messages_get: "GetParams \<Rightarrow> failure + Message")
    (threads_list: "ListParams \<Rightarrow> failure + ListThreadsResponse")
    (threads_get: "GetParams \<Rightarrow> failure + Thread")
    (labels_list: "jsstring \<Rightarrow> failure + Label list option")

datatype ListInput =
  ListInput (query: "jsstring option") (max_results: int) (label_ids: "jsstring list option")
    (page_token: "jsstring option") (list_response_format: ResponseFormat)

text \<open>\<open>listParams\<close>, which holds only the options that were given.\<close>

definition build_listParams :: "ListInput \<Rightarrow> ListParams" where
  "build_listParams params =
     ListParams (js ''me'') (max_results params)
       (truthy (query params))
       (case label_ids params of
          None \<Rightarrow> None
        | Some ids \<Rightarrow> if length ids > 0 then Some ids else None)
       (truthy (page_token params))"

subsection \<open>\<open>gmail_list_messages\<close>\<close>

datatype MessageData =
  MessageData (md_id: jsstring) (md_threadId: jsstring) (md_from: "jsstring option")
    (md_to: "jsstring option") (md_subject: "jsstring option") (md_date: "jsstring option")
    (md_snippet: jsstring) (md_labels: "jsstring list")

datatype ListMessagesOutput =
  ListMessagesOutput (out_messages: "MessageData list") (result_count: nat)
    (next_page_token: "jsstring option")

text \<open>The asynchronous function mapped over the listed messages: one detail fetch.\<close>

definition message_summary :: "GmailClient \<Rightarrow> MessageRef \<Rightarrow> failure + MessageData" where
  "message_summary gmail msg =
     (case messages_get gmail
             (GetParams (js ''me'') (ref_id msg) (js ''metadata'')
                (Some [js ''From'', js ''To'', js ''Subject'', js ''Date''])) of
        Inl error \<Rightarrow> Inl error
      | Inr detail \<Rightarrow>
          (let hs = (case payload detail of None \<Rightarrow> None | Some p \<Rightarrow> headers p)
           in Inr (MessageData
                (or_else (ref_id msg) [])
                (or_else (ref_threadId msg) [])
                (getHeader hs (js ''From''))
                (getHeader hs (js ''To''))
                (getHeader hs (js ''Subject''))
                (getHeader hs (js ''Date''))
                (or_else (snippet detail) [])
                (or_empty (msg_labelIds detail)))))"

definition formatMessageForMarkdown :: "MessageData \<Rightarrow> jsstring" where
  "formatMessageForMarkdown msg =
     (let lines0 =
            [js ''### '' @ or_else (md_subject msg) (js ''(no subject)''),
             js ''- **From**: '' @ or_else (md_from msg) (js ''Unknown''),
             js ''- **To**: '' @ or_else (md_to msg) (js ''Unknown''),
             js ''- **Date**: '' @ or_else (md_date msg) (js ''Unknown''),
             js ''- **ID**: `'' @ md_id msg @ js ''`''];
          lines1 =
            (if length (md_labels msg) > 0
             then lines0 @ [js ''- **Labels**: '' @ join (js '', '') (md_labels msg)]
             else lines0);
          lines2 =
            (if md_snippet msg \<noteq> []
             then lines1 @ [js ''- **Preview**: '' @ md_snippet msg]
             else lines1)
      in join nl lines2)"

fun push_messages :: "MessageData list \<Rightarrow> jsstring list \<Rightarrow> jsstring list" where
  "push_messages [] lines = lines"
| "push_messages (msg # rest) lines =
     push_messages rest (lines @ [formatMessageForMarkdown msg, []])"

definition list_messages_markdown :: "ListInput \<Rightarrow> ListMessagesOutput \<Rightarrow> jsstring" where
  "list_messages_markdown params output =
     (if length (out_messages output) = 0 then
        (case truthy (query params) of
           Some qu \<Rightarrow> js ''No messages found matching '' @ dq @ qu @ dq @ js ''.''
         | None \<Rightarrow> js ''No messages found.'')
      else
        (let lines0 =
               [js ''# Gmail Messages'',
                [],
                js ''Found '' @ digits (length (out_messages output)) @ js '' message(s)''
                  @ (if next_page_token output \<noteq> None then js '' (more available)'' else [])
                  @ js ''.'',
                []];
             lines1 = push_messages (out_messages output) lines0;
             lines2 =
               (case next_page_token output of
                  Some token \<Rightarrow>
                    lines1 @ [js ''*Use page_token='' @ dq @ token @ dq
                                @ js '' to load more messages.*'']
                | None \<Rightarrow> lines1)
         in join nl lines2))"

text \<open>
  The handler. \<open>order\<close> is the order in which the detail fetches settle; the result is
  \<open>None\<close> when the handler is still waiting for one of them. The function
  \<open>getGmailClient\<close> is imported from the authentication module, whose sources at hand
  do not hold it; the outcome of its call, the client or what it throws, is a parameter.
\<close>

definition gmail_list_messages ::
  "(ListMessagesOutput \<Rightarrow> jsstring) \<Rightarrow> (failure + GmailClient) \<Rightarrow> nat list \<Rightarrow> ListInput
     \<Rightarrow> ListMessagesOutput tool_result option" where
  "gmail_list_messages stringify getGmailClient order params =
     (case getGmailClient of
        Inl error \<Rightarrow> Some (catch_result error)
      | Inr gmail \<Rightarrow>
          (case messages_list gmail (build_listParams params) of
             Inl error \<Rightarrow> Some (catch_result error)
           | Inr response \<Rightarrow>
               (let messageIds = or_empty (messages response)
                in case Promise_all order (map (message_summary gmail) messageIds) of
                     None \<Rightarrow> None
                   | Some (Inl error) \<Rightarrow> Some (catch_result error)
                   | Some (Inr msgs) \<Rightarrow>
                       (let output = ListMessagesOutput msgs (length msgs)
                                       (truthy (nextPageToken response));
                            textOutput =
                              (if list_response_format params = MARKDOWN
                               then list_messages_markdown params output
                               else stringify output)
                        in Some (ToolResult [TextContent textOutput] (Some output))))))"

subsection \<open>\<open>gmail_list_threads\<close>\<close>

datatype ThreadData =
  ThreadData (td_id: jsstring) (td_subject: jsstring) (td_from: jsstring) (td_date: jsstring)
    (td_snippet: jsstring) (messageCount: nat)

datatype ListThreadsOutput =
  ListThreadsOutput (out_threads: "ThreadData list") (threads_result_count: nat)
    (threads_next_page_token: "jsstring option")

definition message_headers :: "Message option \<Rightarrow> MessagePartHeader list option" where
  "message_headers m =
     (case m of
        None \<Rightarrow> None
      | Some msg \<Rightarrow> (case payload msg of None \<Rightarrow> None | Some p \<Rightarrow> headers p))"

definition thread_summary :: "GmailClient \<Rightarrow> ThreadRef \<Rightarrow> failure + ThreadData" where
  "thread_summary gmail thread =
     (case threads_get gmail
             (GetParams (js ''me'') (thread_id thread) (js ''metadata'')
                (Some [js ''From'', js ''Subject'', js ''Date''])) of
        Inl error \<Rightarrow> Inl error
      | Inr detail \<Rightarrow>
          (let firstMessage =
                 (case thread_messages detail of
                    None \<Rightarrow> None
                  | Some ms \<Rightarrow> (case ms of [] \<Rightarrow> None | m # _ \<Rightarrow> Some m));
               lastMessage =
                 (case thread_messages detail of
                    None \<Rightarrow> None
                  | Some ms \<Rightarrow> if ms = [] then None else Some (last ms));
               hs = message_headers firstMessage
           in Inr (ThreadData
                (or_else (thread_id thread) [])
                (or_else (getHeader hs (js ''Subject'')) (js ''(no subject)''))
                (or_else (getHeader hs (js ''From'')) (js ''Unknown''))
                (or_else (getHeader (message_headers lastMessage) (js ''Date'')) [])
                (or_else (thread_snippet thread) [])
                (case thread_messages detail of None \<Rightarrow> 0 | Some ms \<Rightarrow> length ms))))"

fun push_threads :: "ThreadData list \<Rightarrow> jsstring list \<Rightarrow> jsstring list" where
  "push_threads [] lines = lines"
| "push_threads (thread # rest) lines =
     push_threads rest
       (lines @
        [js ''### '' @ td_subject thread,
         js ''- **From**: '' @ td_from thread,
         js ''- **Messages**: '' @ digits (messageCount thread),
         js ''- **Last activity**: '' @ td_date thread,
         js ''- **ID**: `'' @ td_id thread @ js ''`'',
         js ''- **Preview**: '' @ td_snippet thread,
         []])"

definition list_threads_markdown :: "ListThreadsOutput \<Rightarrow> jsstring" where
  "list_threads_markdown output =
     (if length (out_threads output) = 0 then js ''No threads found.''
      else
        (let lines0 =
               [js ''# Gmail Threads'',
                [],
                js ''Found '' @ digits (length (out_threads output)) @ js '' thread(s)''
                  @ (if threads_next_page_token output \<noteq> None
                     then js '' (more available)'' else [])
                  @ js ''.'',
                []];
             lines1 = push_threads (out_threads output) lines0;
             lines2 =
               (case threads_next_page_token output of
                  Some token \<Rightarrow>
                    lines1 @ [js ''*Use page_token='' @ dq @ token @ dq
                                @ js '' to load more threads.*'']
                | None \<Rightarrow> lines1)
         in join nl lines2))"

definition gmail_list_threads ::
  "(ListThreadsOutput \<Rightarrow> jsstring) \<Rightarrow> (failure + GmailClient) \<Rightarrow> nat list \<Rightarrow> ListInput
     \<Rightarrow> ListThreadsOutput tool_result option" where
  "gmail_list_threads stringify getGmailClient order params =
     (case getGmailClient of
        Inl error \<Rightarrow> Some (catch_result error)
      | Inr gmail \<Rightarrow>
          (case threads_list gmail (build_listParams params) of
             Inl error \<Rightarrow> Some (catch_result error)
           | Inr response \<Rightarrow>
               (let threadIds = or_empty (threads response)
                in case Promise_all order (map (thread_summary gmail) threadIds) of
                     None \<Rightarrow> None
                   | Some (Inl error) \<Rightarrow> Some (catch_result error)
                   | Some (Inr ths) \<Rightarrow>
                       (let output = ListThreadsOutput ths (length ths)
                                       (truthy (threads_nextPageToken response));
                            textOutput =
                              (if list_response_format params = MARKDOWN
                               then list_threads_markdown output
                               else stringify output)
                        in Some (ToolResult [TextContent textOutput] (Some output))))))"

subsection \<open>\<open>gmail_list_labels\<close>\<close>

datatype LabelData = LabelData (ld_id: jsstring) (ld_name: jsstring) (ld_type: jsstring)



text \<open>
  The comparator handed to \<open>labels.sort\<close>. \<open>localeCompare\<close> depends on the locale of the
  process and is a parameter.
\<close>

definition compare_labels ::
  "(jsstring \<Rightarrow> jsstring \<Rightarrow> int) \<Rightarrow> LabelData \<Rightarrow> LabelData \<Rightarrow> int" where
  "compare_labels localeCompare a b =
     (if ld_type a = js ''system'' \<and> ld_type b \<noteq> js ''system'' then - 1
      else if ld_type a \<noteq> js ''system'' \<and> ld_type b = js ''system'' then 1
      else localeCompare (ld_name a) (ld_name b))"

text \<open>
  \<open>Array.prototype.sort\<close> is stable: it puts the elements in an order in which no
  element compares greater than a later one, and keeps elements that compare equal in
  their original order. For a consistent comparator this fixes the result; it is
  computed here by inserting the elements one by one, from the last to the first, each
  in front of the first element that it does not compare greater than.
\<close>

fun insert_sorted :: "('a \<Rightarrow> 'a \<Rightarrow> int) \<Rightarrow> 'a \<Rightarrow> 'a list \<Rightarrow> 'a list" where
  "insert_sorted cmp x [] = [x]"
| "insert_sorted cmp x (y # ys) =
     (if cmp x y \<le> 0 then x # y # ys else y # insert_sorted cmp x ys)"

definition Array_sort :: "('a \<Rightarrow> 'a \<Rightarrow> int) \<Rightarrow> 'a list \<Rightarrow> 'a list" where
  "Array_sort cmp xs = foldr (insert_sorted cmp) xs []"




text \<open>
  A comparison of strings by their code units, as one order that \<open>localeCompare\<close> can
  realise; it serves to run the sort on examples.
\<close>

fun compare_code_units :: "jsstring \<Rightarrow> jsstring \<Rightarrow> int" where
  "compare_code_units [] [] = 0"
| "compare_code_units [] (y # ys) = - 1"
| "compare_code_units (x # xs) [] = 1"
| "compare_code_units (x # xs) (y # ys) =
     (if x < y then - 1 else if y < x then 1 else compare_code_units xs ys)"

section \<open>The handlers of \<open>gmail_get_message\<close> and \<open>gmail_get_thread\<close>\<close>













section \<open>Drive tools (tools/drive.ts)\<close>

subsection \<open>The query of \<open>drive_search_files\<close>\<close>

definition MIME_TYPE_MAP :: "jsstring \<Rightarrow> jsstring option" where
  "MIME_TYPE_MAP key =
     (if key = js ''documents'' then Some (js ''application/vnd.google-apps.document'')
      else if key = js ''spreadsheets'' then Some (js ''application/vnd.google-apps.spreadsheet'')
      else if key = js ''presentations'' then Some (js ''application/vnd.google-apps.presentation'')
      else if key = js ''folders'' then Some (js ''application/vnd.google-apps.folder'')
      else None)"

datatype SearchFilesInput =
  SearchFilesInput (search_query: jsstring) (page_size: int)
    (search_page_token: "jsstring option") (mime_type: jsstring)
    (search_response_format: ResponseFormat)

text \<open>
  \<open>params.query.replace(/'/g, "\\'")\<close>: every single quote (code unit 39) becomes a
  backslash (92) followed by the quote.
\<close>

definition escape_quotes :: "jsstring \<Rightarrow> jsstring" where
  "escape_quotes s = concat (map (\<lambda>c. if c = 39 then [92, 39] else [c]) s)"

definition search_q :: "SearchFilesInput \<Rightarrow> jsstring" where
  "search_q params =
     (let q = js ''trashed = false and fullText contains '' @ [39]
                @ escape_quotes (search_query params) @ [39]
      in if mime_type params \<noteq> js ''all'' then
           (case MIME_TYPE_MAP (mime_type params) of
              Some mime \<Rightarrow> q @ js '' and mimeType = '' @ [39] @ mime @ [39]
            | None \<Rightarrow> q)
         else q)"

text \<open>
  How the Drive query language reads a quoted string, from the character after the
  opening quote on: a backslash escapes the character that follows it, and the first
  quote that is not escaped closes the string. The result is the text between the
  quotes and what is left of the query after the closing quote; \<open>None\<close> when the string
  is never closed.
\<close>

fun read_quoted :: "jsstring \<Rightarrow> (jsstring \<times> jsstring) option" where
  "read_quoted [] = None"
| "read_quoted [c] = (if c = 39 then Some ([], []) else None)"
| "read_quoted (c # d # rest) =
     (if c = 39 then Some ([], d # rest)
      else if c = 92 then
        (case read_quoted rest of
           None \<Rightarrow> None
         | Some (s, after) \<Rightarrow> Some (c # d # s, after))
      else
        (case read_quoted (d # rest) of
           None \<Rightarrow> None
         | Some (s, after) \<Rightarrow> Some (c # s, after)))"

subsection \<open>The handler of \<open>drive_get_file\<close>\<close>
















subsection \<open>The comment tools\<close>


























subsection \<open>The listing and the search of files\<close>














section \<open>The shape of a tool result\<close>




section \<open>Facts about strings\<close>

lemma includes_iff: "str_includes s t \<longleftrightarrow> (\<exists>p q. s = p @ t @ q)"
proof (induction s)
  case Nil
  then show ?case by auto
next
  case (Cons c cs)
  show ?case
  proof
    assume "str_includes (c # cs) t"
    then consider "prefix t (c # cs)" | "str_includes cs t" by auto
    then show "\<exists>p q. c # cs = p @ t @ q"
    proof cases
      case 1
      then obtain q where "c # cs = t @ q" by (auto simp: prefix_def)
      then have "c # cs = [] @ t @ q" by simp
      then show ?thesis by blast
    next
      case 2
      with Cons.IH obtain p q where "cs = p @ t @ q" by blast
      then have "c # cs = (c # p) @ t @ q" by simp
      then show ?thesis by blast
    qed
  next
    assume "\<exists>p q. c # cs = p @ t @ q"
    then obtain p q where pq: "c # cs = p @ t @ q" by blast
    show "str_includes (c # cs) t"
    proof (cases p)
      case Nil
      with pq have "prefix t (c # cs)" by (simp add: prefix_def)
      then show ?thesis by simp
    next
      case (Cons a p')
      with pq have "cs = p' @ t @ q" by simp
      with Cons.IH have "str_includes cs t" by blast
      then show ?thesis by simp
    qed
  qed
qed

lemma includes_trans: "str_includes s t \<Longrightarrow> str_includes t u \<Longrightarrow> str_includes s u"
proof -
  assume "str_includes s t" and "str_includes t u"
  then obtain p q p' q' where "s = p @ t @ q" and "t = p' @ u @ q'"
    by (auto simp: includes_iff)
  then have "s = (p @ p') @ u @ (q' @ q)" by simp
  then show ?thesis unfolding includes_iff by blast
qed

section \<open>The error classifier\<close>

lemma includes_set: "str_includes s t \<Longrightarrow> set t \<subseteq> set s"
  by (auto simp: includes_iff)

lemma includes_drop: "str_includes (drop n s) t \<Longrightarrow> str_includes s t"
proof -
  assume "str_includes (drop n s) t"
  then obtain p q where "drop n s = p @ t @ q" by (auto simp: includes_iff)
  then have "s = (take n s @ p) @ t @ q" by (metis append_take_drop_id append.assoc)
  then show ?thesis unfolding includes_iff by blast
qed

lemma fixed_no_4:
  "52 \<notin> set msg_auth" "52 \<notin> set msg_permission"
  "52 \<notin> set msg_not_found" "52 \<notin> set msg_rate_limit"
  by (simp_all add: msg_auth_def msg_permission_def msg_not_found_def msg_rate_limit_def js_def)

lemma includes_429: "str_includes (js ''429 Too Many Requests'') (js ''429'')"
  by (simp add: js_def)

text \<open>
  Claim C4. The classifier matches substrings of the failure's message in a fixed
  priority order, the first match winning: \<open>401\<close> or \<open>invalid_grant\<close> gives the
  authentication message, then \<open>403\<close> permission denied, \<open>404\<close> not found,
  \<open>429\<close> rate limit, \<open>400\<close> the invalid-request message with the original text,
  and anything else the generic message with the original text; a value that is not an
  \<open>Error\<close> gives the generic message with its string coercion. A message that
  contains \<open>429 Too Many Requests\<close> is never answered with the generic fallback: it
  gets one of the four fixed messages, the rate-limit one unless a pattern of higher
  priority occurs in it too, and the message \<open>429 Too Many Requests\<close> itself gets the
  rate-limit one.
\<close>

theorem handleGoogleError_priority:
  "(str_includes m (js ''401'') \<or> str_includes m (js ''invalid_grant'')
      \<longrightarrow> handleGoogleError (Error m) = msg_auth)
   \<and> (\<not> str_includes m (js ''401'') \<and> \<not> str_includes m (js ''invalid_grant'')
        \<and> str_includes m (js ''403'')
      \<longrightarrow> handleGoogleError (Error m) = msg_permission)
   \<and> (\<not> str_includes m (js ''401'') \<and> \<not> str_includes m (js ''invalid_grant'')
        \<and> \<not> str_includes m (js ''403'') \<and> str_includes m (js ''404'')
      \<longrightarrow> handleGoogleError (Error m) = msg_not_found)
   \<and> (\<not> str_includes m (js ''401'') \<and> \<not> str_includes m (js ''invalid_grant'')
        \<and> \<not> str_includes m (js ''403'') \<and> \<not> str_includes m (js ''404'')
        \<and> str_includes m (js ''429'')
      \<longrightarrow> handleGoogleError (Error m) = msg_rate_limit)
   \<and> (\<not> str_includes m (js ''401'') \<and> \<not> str_includes m (js ''invalid_grant'')
        \<and> \<not> str_includes m (js ''403'') \<and> \<not> str_includes m (js ''404'')
        \<and> \<not> str_includes m (js ''429'') \<and> str_includes m (js ''400'')
      \<longrightarrow> handleGoogleError (Error m) = js ''Error: Invalid request. '' @ m)
   \<and> (\<not> str_includes m (js ''401'') \<and> \<not> str_includes m (js ''invalid_grant'')
        \<and> \<not> str_includes m (js ''403'') \<and> \<not> str_includes m (js ''404'')
        \<and> \<not> str_includes m (js ''429'') \<and> \<not> str_includes m (js ''400'')
      \<longrightarrow> handleGoogleError (Error m) = js ''Error: '' @ m)
   \<and> handleGoogleError (NonError v) = js ''Error: Unexpected error occurred: '' @ String_coerce v
   \<and> (str_includes m (js ''429 Too Many Requests'')
      \<longrightarrow> handleGoogleError (Error m) \<noteq> js ''Error: '' @ m
        \<and> handleGoogleError (Error m) \<in> {msg_auth, msg_permission, msg_not_found, msg_rate_limit})
   \<and> (str_includes m (js ''429 Too Many Requests'')
        \<and> \<not> str_includes m (js ''401'') \<and> \<not> str_includes m (js ''invalid_grant'')
        \<and> \<not> str_includes m (js ''403'') \<and> \<not> str_includes m (js ''404'')
      \<longrightarrow> handleGoogleError (Error m) = msg_rate_limit)
   \<and> handleGoogleError (Error (js ''429 Too Many Requests'')) = msg_rate_limit"
proof -
  have i429: "str_includes m (js ''429'')" if "str_includes m (js ''429 Too Many Requests'')"
    using that includes_429 by (rule includes_trans)
  have generic: "handleGoogleError (Error m) \<noteq> js ''Error: '' @ m
        \<and> handleGoogleError (Error m) \<in> {msg_auth, msg_permission, msg_not_found, msg_rate_limit}"
    if h: "str_includes m (js ''429 Too Many Requests'')"
  proof -
    define r where "r = handleGoogleError (Error m)"
    from h includes_429 have i429: "str_includes m (js ''429'')"
      by (rule includes_trans)
    then have mem: "r \<in> {msg_auth, msg_permission, msg_not_found, msg_rate_limit}"
      unfolding r_def by simp
    have "r \<noteq> js ''Error: '' @ m"
    proof
      assume eq: "r = js ''Error: '' @ m"
      then have "r = [] @ js ''Error: '' @ m @ []" by simp
      then have "str_includes r m" 
        unfolding includes_iff by (metis append.assoc)
      from this i429 have "str_includes r (js ''429'')"
        by (rule includes_trans)
      then have "set (js ''429'') \<subseteq> set r"
        by (rule includes_set)
      then have "52 \<in> set r"
        by (simp add: js_def)
      with mem fixed_no_4 show False by blast
    qed
    with mem show ?thesis unfolding r_def by simp
  qed
  have scenario: "handleGoogleError (Error (js ''429 Too Many Requests'')) = msg_rate_limit"
    by (simp add: js_def)
  show ?thesis using generic scenario i429 by simp
qed

theorem handleGoogleError_priority_witness:
  "handleGoogleError (Error (js ''HTTP 403 Forbidden'')) = msg_permission
   \<and> handleGoogleError (Error (js ''quota 429 Too Many Requests'')) = msg_rate_limit
   \<and> handleGoogleError (Error (js ''quota 429 Too Many Requests'')) \<noteq> js ''Error: quota 429 Too Many Requests''
   \<and> handleGoogleError (Error (js ''socket hang up'')) = js ''Error: socket hang up''
   \<and> handleGoogleError (NonError JNull) = js ''Error: Unexpected error occurred: null''"
proof -
  have a: "handleGoogleError (Error (js ''HTTP 403 Forbidden'')) = msg_permission"
    using handleGoogleError_priority [of "js ''HTTP 403 Forbidden''" JNull]
    by (simp add: js_def)
  have b: "handleGoogleError (Error (js ''quota 429 Too Many Requests'')) = msg_rate_limit
      \<and> handleGoogleError (Error (js ''quota 429 Too Many Requests'')) \<noteq> js ''Error: quota 429 Too Many Requests''"
    using handleGoogleError_priority [of "js ''quota 429 Too Many Requests''" JNull]
    by (simp add: js_def)
  have c: "handleGoogleError (Error (js ''socket hang up'')) = js ''Error: socket hang up''
      \<and> handleGoogleError (NonError JNull) = js ''Error: Unexpected error occurred: null''"
    using handleGoogleError_priority [of "js ''socket hang up''" JNull]
    by (simp add: js_def)
  show ?thesis by (intro conjI a b [THEN conjunct1] b [THEN conjunct2] c [THEN conjunct1] c [THEN conjunct2])
qed

section \<open>Document text extraction\<close>

lemma join_empty_sep: "join [] xs = concat xs"
  by (induction "[] :: jsstring" xs rule: join.induct) auto

lemma push_runs_eq: "push_runs es acc = acc @ filter (\<lambda>s. s \<noteq> []) (map run_text es)"
  by (induction es arbitrary: acc)
     (auto simp: run_text_def split: option.splits)

lemma concat_filter_nonempty: "concat (filter (\<lambda>s. s \<noteq> []) xs) = concat xs"
  by (induction xs) auto

lemma concat_push_runs: "concat (push_runs es acc) = concat acc @ concat (map run_text es)"
  by (simp add: push_runs_eq concat_filter_nonempty)

lemma concat_push_elements:
  "concat (push_elements els acc) = concat acc @ concat (map block_text els)"
  by (induction els arbitrary: acc)
     (auto simp: block_text_def paragraph_text_def concat_push_runs Let_def split: option.splits)

text \<open>
  Claim C2. The text extracted from a document body is the concatenation, in document
  order, of what each block contributes: a paragraph block the literal text of its text
  runs in order, a table block the marker \<open>[TABLE]\<close> and nothing else. Replacing the
  contents of the tables by anything leaves the output unchanged, so no cell text
  reaches it. An absent body, a body without content and an empty body give the empty
  string.
\<close>

theorem extractTextFromBody_concat:
  "extractTextFromBody (Some (Body (Some els))) = concat (map block_text els)
   \<and> block_text (StructuralElement (Some (Paragraph (Some es))) None) = concat (map run_text es)
   \<and> block_text (StructuralElement None (Some t)) = js ''[TABLE]''
   \<and> extractTextFromBody (Some (Body (Some (replace_tables f els))))
       = extractTextFromBody (Some (Body (Some els)))
   \<and> extractTextFromBody None = []
   \<and> extractTextFromBody (Some (Body None)) = []
   \<and> extractTextFromBody (Some (Body (Some []))) = []"
proof -
  have main: "extractTextFromBody (Some (Body (Some xs))) = concat (map block_text xs)" for xs
    by (simp add: extractTextFromBody_def join_empty_sep concat_push_elements)
  have "map block_text (replace_tables f els) = map block_text els"
    by (simp add: replace_tables_def block_text_def split: option.splits)
  then have tables: "extractTextFromBody (Some (Body (Some (replace_tables f els))))
       = extractTextFromBody (Some (Body (Some els)))"
    by (simp add: main)
  show ?thesis
    using main tables
    by (simp add: block_text_def paragraph_text_def extractTextFromBody_def)
qed

theorem extractTextFromBody_concat_witness:
  "extractTextFromBody (Some (Body (Some
     [StructuralElement (Some (Paragraph (Some
        [ParagraphElement (Some (TextRun (Some (js ''Hello '')))),
         ParagraphElement None,
         ParagraphElement (Some (TextRun (Some (js ''world''))))]))) None,
      StructuralElement None (Some (Table [TableRow [TableCell
        [StructuralElement (Some (Paragraph (Some
           [ParagraphElement (Some (TextRun (Some (js ''cell''))))]))) None]]])),
      StructuralElement None None,
      StructuralElement (Some (Paragraph (Some
        [ParagraphElement (Some (TextRun (Some (js ''!''))))]))) None])))
   = js ''Hello world[TABLE]!''"
  using extractTextFromBody_concat [of
     "[StructuralElement (Some (Paragraph (Some
        [ParagraphElement (Some (TextRun (Some (js ''Hello '')))),
         ParagraphElement None,
         ParagraphElement (Some (TextRun (Some (js ''world''))))]))) None,
      StructuralElement None (Some (Table [TableRow [TableCell
        [StructuralElement (Some (Paragraph (Some
           [ParagraphElement (Some (TextRun (Some (js ''cell''))))]))) None]]])),
      StructuralElement None None,
      StructuralElement (Some (Paragraph (Some
        [ParagraphElement (Some (TextRun (Some (js ''!''))))]))) None]"]
  by (simp add: block_text_def paragraph_text_def run_text_def js_def)

section \<open>The markdown table of spreadsheet values\<close>

lemma push_rows_eq:
  "push_rows vs lines = lines @ map (\<lambda>row. js ''| '' @ join (js '' | '') (map cell_text row) @ js '' |'') vs"
  by (induction vs arbitrary: lines) auto

lemma map_enumerate_fst: "map (\<lambda>(i, _). f i) (enumerate n xs) = map f [n..<n + length xs]"
  by (simp add: enumerate_eq_zip map_fst_zip_take split_def flip: map_map[of f fst, unfolded comp_def])

lemma formatValuesLines_eq:
  "formatValuesLines vs rng =
     [js ''## Data from '' @ rng,
      [],
      js ''| '' @ join (js '' | '') (map (\<lambda>i. js ''Col '' @ digits (i + 1)) [0..<length (vs ! 0)]) @ js '' |'',
      js ''| '' @ join (js '' | '') (replicate (length (vs ! 0)) (js ''---'')) @ js '' |'']
     @ map (\<lambda>row. js ''| '' @ join (js '' | '') (map cell_text row) @ js '' |'') vs"
  by (simp add: formatValuesLines_def Let_def push_rows_eq map_enumerate_fst map_replicate_const)

text \<open>
  Claim C8. For a non-empty grid the markdown rendering is the lines of the table joined
  by newlines: after the title line and an empty line, a header row synthesised from the
  length of the first row as \<open>Col 1\<close>, \<open>Col 2\<close>, ..., a separator row of the same
  width, and one data row per grid row in order, each cell stringified, \<open>null\<close> and
  \<open>undefined\<close> as the empty string. The grid \<open>[["a","b"],["c","d"]]\<close> gives the header
  row \<open>| Col 1 | Col 2 |\<close> and two data rows.
\<close>

theorem formatValuesAsMarkdown_table:
  "vs \<noteq> [] \<Longrightarrow>
     formatValuesAsMarkdown (Some vs) rng = join nl (formatValuesLines vs rng)
     \<and> length (formatValuesLines vs rng) = 4 + length vs
     \<and> formatValuesLines vs rng ! 2 =
         js ''| '' @ join (js '' | '') (map (\<lambda>i. js ''Col '' @ digits (i + 1)) [0..<length (hd vs)]) @ js '' |''
     \<and> formatValuesLines vs rng ! 3 =
         js ''| '' @ join (js '' | '') (replicate (length (hd vs)) (js ''---'')) @ js '' |''
     \<and> (\<forall>i<length vs. formatValuesLines vs rng ! (4 + i) =
           js ''| '' @ join (js '' | '') (map cell_text (vs ! i)) @ js '' |'')
     \<and> cell_text JNull = [] \<and> cell_text JUndefined = []
     \<and> (c \<noteq> JNull \<and> c \<noteq> JUndefined \<longrightarrow> cell_text c = String_coerce c)
     \<and> formatValuesAsMarkdown
           (Some [[JString (js ''a''), JString (js ''b'')], [JString (js ''c''), JString (js ''d'')]])
           (js ''Sheet1!A1:B2'')
         = join nl [js ''## Data from Sheet1!A1:B2'', [], js ''| Col 1 | Col 2 |'',
                    js ''| --- | --- |'', js ''| a | b |'', js ''| c | d |'']"
proof -
  assume ne: "vs \<noteq> []"
  then have hd0: "vs ! 0 = hd vs" by (simp add: hd_conv_nth)
  have a: "formatValuesAsMarkdown (Some vs) rng = join nl (formatValuesLines vs rng)"
    using ne by (simp add: formatValuesAsMarkdown_def)
  have b: "length (formatValuesLines vs rng) = 4 + length vs"
    by (simp add: formatValuesLines_eq)
  have c2: "formatValuesLines vs rng ! 2 =
         js ''| '' @ join (js '' | '') (map (\<lambda>i. js ''Col '' @ digits (i + 1)) [0..<length (hd vs)]) @ js '' |''"
    by (simp add: formatValuesLines_eq hd0)
  have c3: "formatValuesLines vs rng ! 3 =
         js ''| '' @ join (js '' | '') (replicate (length (hd vs)) (js ''---'')) @ js '' |''"
    by (simp add: formatValuesLines_eq hd0 numeral_3_eq_3)
  have d: "\<forall>i<length vs. formatValuesLines vs rng ! (4 + i) =
           js ''| '' @ join (js '' | '') (map cell_text (vs ! i)) @ js '' |''"
  proof (intro allI impI)
    fix i assume "i < length vs"
    have "formatValuesLines vs rng ! (4 + i) =
        map (\<lambda>row. js ''| '' @ join (js '' | '') (map cell_text row) @ js '' |'') vs ! i"
      unfolding formatValuesLines_eq by (simp add: nth_append)
    with \<open>i < length vs\<close> show "formatValuesLines vs rng ! (4 + i) =
           js ''| '' @ join (js '' | '') (map cell_text (vs ! i)) @ js '' |''"
      by simp
  qed
  have e: "cell_text JNull = [] \<and> cell_text JUndefined = []
     \<and> (c \<noteq> JNull \<and> c \<noteq> JUndefined \<longrightarrow> cell_text c = String_coerce c)"
    by (simp add: cell_text_def)
  have f: "formatValuesAsMarkdown
           (Some [[JString (js ''a''), JString (js ''b'')], [JString (js ''c''), JString (js ''d'')]])
           (js ''Sheet1!A1:B2'')
         = join nl [js ''## Data from Sheet1!A1:B2'', [], js ''| Col 1 | Col 2 |'',
                    js ''| --- | --- |'', js ''| a | b |'', js ''| c | d |'']"
    by (simp add: formatValuesAsMarkdown_def formatValuesLines_def cell_text_def js_def nl_def
        enumerate_eq_zip upt_rec [of 0] upt_rec [of 1] digits.simps)
  from a b c2 c3 d e f show ?thesis by (intro conjI) blast+
qed

theorem formatValuesAsMarkdown_table_witness:
  "formatValuesLines [[JString (js ''a''), JNull, JInt 42], [JBool True]] (js ''A1:C2'') ! 2 = js ''| Col 1 | Col 2 | Col 3 |''
   \<and> formatValuesLines [[JString (js ''a''), JNull, JInt 42], [JBool True]] (js ''A1:C2'') ! 4 = js ''| a |  | 42 |''
   \<and> formatValuesLines [[JString (js ''a''), JNull, JInt 42], [JBool True]] (js ''A1:C2'') ! 5 = js ''| true |''
   \<and> length (formatValuesLines [[JString (js ''a''), JNull, JInt 42], [JBool True]] (js ''A1:C2'')) = 6"
proof -
  let ?vs = "[[JString (js ''a''), JNull, JInt 42], [JBool True]]"
  have ne: "?vs \<noteq> []" by simp
  note t = formatValuesAsMarkdown_table [OF ne, of "js ''A1:C2''" JNull]
  from t have rows: "\<forall>i<length ?vs. formatValuesLines ?vs (js ''A1:C2'') ! (4 + i) =
           js ''| '' @ join (js '' | '') (map cell_text (?vs ! i)) @ js '' |''"
    by blast
  have l: "length (formatValuesLines ?vs (js ''A1:C2'')) = 6"
    using t by simp
  have h: "formatValuesLines ?vs (js ''A1:C2'') ! 2 = js ''| Col 1 | Col 2 | Col 3 |''"
    using t by (simp add: js_def upt_rec [of 0] upt_rec [of 1] upt_rec [of 2] digits.simps)
  have r0: "formatValuesLines ?vs (js ''A1:C2'') ! 4 = js ''| a |  | 42 |''"
    using rows [rule_format, of 0] by (simp add: cell_text_def String_int_def js_def digits.simps)
  have r1: "formatValuesLines ?vs (js ''A1:C2'') ! 5 = js ''| true |''"
    using rows [rule_format, of 1] by (simp add: cell_text_def js_def)
  from l h r0 r1 show ?thesis by simp
qed

section \<open>Base64 and UTF-8 round trip\<close>

lemma unbase64_base64_char: "n < 64 \<Longrightarrow> unbase64 (base64_char n) = Some n"
  unfolding unbase64_def base64_char_def by (auto; arith)

lemma base64_char_not_special:
  "n < 64 \<Longrightarrow> base64_char n \<noteq> 61 \<and> base64_char n \<noteq> 45 \<and> base64_char n \<noteq> 95"
  unfolding base64_char_def by (auto; arith)

lemma sextet_bounds:
  fixes x y z :: nat
  assumes "x < 256" "y < 256" "z < 256"
  shows "x div 4 < 64" "(x mod 4) * 16 + y div 16 < 64" "(y mod 16) * 4 + z div 64 < 64"
    "z mod 64 < 64" "(x mod 4) * 16 < 64" "(y mod 16) * 4 < 64"
  using assms by arith+

lemma regroup:
  fixes x y z :: nat
  assumes "x < 256" "y < 256" "z < 256"
  shows "(x div 4) * 4 + ((x mod 4) * 16 + y div 16) div 16 = x"
    "(((x mod 4) * 16 + y div 16) mod 16) * 16 + ((y mod 16) * 4 + z div 64) div 4 = y"
    "(((y mod 16) * 4 + z div 64) mod 4) * 64 + z mod 64 = z"
    "(x div 4) * 4 + ((x mod 4) * 16) div 16 = x"
    "(((x mod 4) * 16 + y div 16) mod 16) * 16 + ((y mod 16) * 4) div 4 = y"
  using assms by (simp; arith)+

lemma base64_roundtrip:
  "\<forall>b\<in>set bs. b < 256 \<Longrightarrow> Buffer_from_base64 (Buffer_toString_base64 bs) = bs"
proof (induction bs rule: Buffer_toString_base64.induct)
  case (1 x y z rest)
  then have b: "x < 256" "y < 256" "z < 256" and r: "\<forall>b\<in>set rest. b < 256" by simp_all
  from 1 r have IH: "Buffer_from_base64 (Buffer_toString_base64 rest) = rest" by simp
  show ?case
    using IH sextet_bounds [OF b] regroup [OF b]
    by (simp add: Buffer_from_base64_def base64_char_not_special unbase64_base64_char)
next
  case (2 x y)
  then have b: "x < 256" "y < 256" "(0::nat) < 256" by simp_all
  show ?case
    using sextet_bounds [OF b] regroup [OF b]
    by (simp add: Buffer_from_base64_def base64_char_not_special unbase64_base64_char)
next
  case (3 x)
  then have b: "x < 256" "(0::nat) < 256" "(0::nat) < 256" by simp_all
  show ?case
    using sextet_bounds [OF b] regroup [OF b]
    by (simp add: Buffer_from_base64_def base64_char_not_special unbase64_base64_char)
next
  case 4
  show ?case by (simp add: Buffer_from_base64_def)
qed

lemma base64_alphabet:
  "\<forall>b\<in>set bs. b < 256 \<Longrightarrow> 45 \<notin> set (Buffer_toString_base64 bs) \<and> 95 \<notin> set (Buffer_toString_base64 bs)"
proof (induction bs rule: Buffer_toString_base64.induct)
  case (1 x y z rest)
  then have b: "x < 256" "y < 256" "z < 256" and r: "\<forall>b\<in>set rest. b < 256" by simp_all
  from 1 r have IH: "45 \<notin> set (Buffer_toString_base64 rest) \<and> 95 \<notin> set (Buffer_toString_base64 rest)" by simp
  show ?case
    using IH sextet_bounds [OF b, THEN base64_char_not_special]
    by simp
next
  case (2 x y)
  then have b: "x < 256" "y < 256" "(0::nat) < 256" by simp_all
  show ?case
    using sextet_bounds [OF b, THEN base64_char_not_special]
    by simp
next
  case (3 x)
  then have b: "x < 256" "(0::nat) < 256" "(0::nat) < 256" by simp_all
  show ?case
    using sextet_bounds [OF b, THEN base64_char_not_special]
    by simp
next
  case 4
  show ?case by simp
qed

lemma undo_urlsafe:
  "45 \<notin> set t \<Longrightarrow> 95 \<notin> set t \<Longrightarrow>
   replace_char 95 47 (replace_char 45 43 (map (\<lambda>c. if c = 43 then 45 else if c = 47 then 95 else c) t)) = t"
  by (induction t) (auto simp: replace_char_def)


lemma utf8_decode_1: "b < 0x80 \<Longrightarrow> utf8_decode (b # rest) = b # utf8_decode rest"
  by simp

lemma utf8_decode_2:
  "0xC2 \<le> b \<Longrightarrow> b \<le> 0xDF \<Longrightarrow> continuation b1 \<Longrightarrow>
   utf8_decode (b # b1 # rest) = ((b - 0xC0) * 64 + (b1 - 0x80)) # utf8_decode rest"
  by simp

lemma utf8_decode_3:
  "0xE0 \<le> b \<Longrightarrow> b \<le> 0xEF \<Longrightarrow> second_of3 b b1 \<Longrightarrow> continuation b2 \<Longrightarrow>
   utf8_decode (b # b1 # b2 # rest)
     = ((b - 0xE0) * 4096 + (b1 - 0x80) * 64 + (b2 - 0x80)) # utf8_decode rest"
  by simp

lemma utf8_decode_4:
  "0xF0 \<le> b \<Longrightarrow> b \<le> 0xF4 \<Longrightarrow> second_of4 b b1 \<Longrightarrow> continuation b2 \<Longrightarrow>
   continuation b3 \<Longrightarrow>
   utf8_decode (b # b1 # b2 # b3 # rest)
     = ((b - 0xF0) * 262144 + (b1 - 0x80) * 4096 + (b2 - 0x80) * 64 + (b3 - 0x80))
       # utf8_decode rest"
  by simp

lemma continuation_mod: "continuation (0x80 + n mod 64)"
  unfolding continuation_def by arith

lemma split_units:
  fixes cp :: nat
  obtains a m0 q m1 where "cp = a * 64 + m0" "m0 < 64" "a = q * 64 + m1" "m1 < 64"
    "cp mod 64 = m0" "cp div 64 mod 64 = m1" "cp div 4096 = q"
proof -
  have "cp = (cp div 64) * 64 + cp mod 64" by simp
  moreover have "cp mod 64 < 64" by simp
  moreover have "cp div 64 = (cp div 64 div 64) * 64 + cp div 64 mod 64" by simp
  moreover have "cp div 64 mod 64 < 64" by simp
  moreover have "cp div 4096 = cp div 64 div 64" by (simp add: div_mult2_eq)
  ultimately show ?thesis using that by blast
qed

lemma utf8_roundtrip_2:
  assumes "0x80 \<le> cp" "cp < 0x800"
  shows "utf8_decode (utf8_bytes cp @ rest) = cp # utf8_decode rest"
proof -
  obtain a m0 where e: "cp = a * 64 + m0" "m0 < 64" "cp mod 64 = m0" "cp div 64 = a"
    by (metis div_mult_mod_eq mod_less_divisor zero_less_numeral)
  have b: "0xC2 \<le> 0xC0 + a" "0xC0 + a \<le> 0xDF" using assms e(1,2) by linarith+
  have c: "continuation (0x80 + m0)" using e(2) by (simp add: continuation_def)
  have v: "(0xC0 + a - 0xC0) * 64 + (0x80 + m0 - 0x80) = cp" using e(1) by simp
  from assms have "utf8_bytes cp = [0xC0 + a, 0x80 + m0]"
    by (simp add: utf8_bytes_def e(3,4))
  then show ?thesis
    using utf8_decode_2 [OF b c, of rest] v by simp
qed

lemma utf8_roundtrip_3:
  assumes "0x800 \<le> cp" "cp < 0x10000" "scalar cp"
  shows "utf8_decode (utf8_bytes cp @ rest) = cp # utf8_decode rest"
proof -
  obtain a m0 q m1 where e: "cp = a * 64 + m0" "m0 < 64" "a = q * 64 + m1" "m1 < 64"
    and d: "cp mod 64 = m0" "cp div 64 mod 64 = m1" "cp div 4096 = q"
    by (rule split_units)
  from assms(3) have sc: "cp < 0xD800 \<or> 0xDFFF < cp" by (auto simp: scalar_def)
  have b: "0xE0 \<le> 0xE0 + q" "0xE0 + q \<le> 0xEF" using assms(2) e by linarith+
  have "q = 0 \<longrightarrow> 32 \<le> m1" using assms(1) e by linarith
  moreover have "q = 13 \<longrightarrow> m1 \<le> 31" using sc e by linarith
  ultimately have s: "second_of3 (0xE0 + q) (0x80 + m1)"
    using e(4) by (simp add: second_of3_def)
  have c1: "continuation (0x80 + m0)" using e(2) by (simp add: continuation_def)
  have v: "(0xE0 + q - 0xE0) * 4096 + (0x80 + m1 - 0x80) * 64 + (0x80 + m0 - 0x80) = cp"
    using e(1,3) by simp
  from assms have "utf8_bytes cp = [0xE0 + q, 0x80 + m1, 0x80 + m0]"
    by (simp add: utf8_bytes_def d)
  then show ?thesis
    using utf8_decode_3 [OF b s c1, of rest] v by simp
qed

lemma utf8_roundtrip_4:
  assumes "0x10000 \<le> cp" "cp < 0x110000"
  shows "utf8_decode (utf8_bytes cp @ rest) = cp # utf8_decode rest"
proof -
  obtain a m0 q m1 where e: "cp = a * 64 + m0" "m0 < 64" "a = q * 64 + m1" "m1 < 64"
    and d: "cp mod 64 = m0" "cp div 64 mod 64 = m1" "cp div 4096 = q"
    by (rule split_units)
  obtain p m2 where f: "q = p * 64 + m2" "m2 < 64" and g: "q mod 64 = m2" "q div 64 = p"
    by (metis div_mult_mod_eq mod_less_divisor zero_less_numeral)
  have "cp div 262144 = cp div (4096 * 64)" by simp
  also have "\<dots> = cp div 4096 div 64" by (rule div_mult2_eq)
  finally have p: "cp div 262144 = p" using d(3) g(2) by simp
  have b: "0xF0 \<le> 0xF0 + p" "0xF0 + p \<le> 0xF4" using assms(2) e f by linarith+
  have "p = 0 \<longrightarrow> 16 \<le> m2" using assms(1) e f by linarith
  moreover have "p = 4 \<longrightarrow> m2 \<le> 15" using assms(2) e f by linarith
  ultimately have s: "second_of4 (0xF0 + p) (0x80 + m2)"
    using f(2) by (simp add: second_of4_def)
  have c1: "continuation (0x80 + m1)" using e(4) by (simp add: continuation_def)
  have c0: "continuation (0x80 + m0)" using e(2) by (simp add: continuation_def)
  have v: "(0xF0 + p - 0xF0) * 262144 + (0x80 + m2 - 0x80) * 4096 + (0x80 + m1 - 0x80) * 64
      + (0x80 + m0 - 0x80) = cp"
    using e(1,3) f(1) by simp
  from assms have "utf8_bytes cp = [0xF0 + p, 0x80 + m2, 0x80 + m1, 0x80 + m0]"
    by (simp add: utf8_bytes_def d g p)
  then show ?thesis
    using utf8_decode_4 [OF b s c1 c0, of rest] v by simp
qed

lemma utf8_roundtrip_cp:
  assumes "scalar cp"
  shows "utf8_decode (utf8_bytes cp @ rest) = cp # utf8_decode rest"
proof -
  from assms have lt: "cp < 0x110000" by (simp add: scalar_def)
  consider "cp < 0x80" | "0x80 \<le> cp" "cp < 0x800" | "0x800 \<le> cp" "cp < 0x10000"
    | "0x10000 \<le> cp" by linarith
  then show ?thesis
  proof cases
    case 1
    then show ?thesis by (simp add: utf8_bytes_def)
  next
    case 2
    then show ?thesis by (rule utf8_roundtrip_2)
  next
    case 3
    then show ?thesis using assms by (rule utf8_roundtrip_3)
  next
    case 4
    then show ?thesis using lt by (rule utf8_roundtrip_4)
  qed
qed


lemma utf8_roundtrip: "\<forall>cp\<in>set cps. scalar cp \<Longrightarrow> utf8_decode (concat (map utf8_bytes cps)) = cps"
  by (induction cps) (simp_all add: utf8_roundtrip_cp)

lemma utf8_bytes_bound: "cp < 0x110000 \<Longrightarrow> \<forall>b\<in>set (utf8_bytes cp). b < 256"
proof -
  assume lt: "cp < 0x110000"
  obtain a m0 q m1 where e: "cp = a * 64 + m0" "m0 < 64" "a = q * 64 + m1" "m1 < 64"
    and d: "cp mod 64 = m0" "cp div 64 mod 64 = m1" "cp div 4096 = q"
    by (rule split_units)
  obtain p m2 where f: "q = p * 64 + m2" "m2 < 64" and g: "q mod 64 = m2" "q div 64 = p"
    by (metis div_mult_mod_eq mod_less_divisor zero_less_numeral)
  have "cp div 262144 = cp div (4096 * 64)" by simp
  also have "\<dots> = cp div 4096 div 64" by (rule div_mult2_eq)
  finally have p: "cp div 262144 = p" using d(3) g(2) by simp
  have a: "cp div 64 = a" using e(1,2) by simp
  have 1: "cp < 0x800 \<longrightarrow> a < 32" using e by linarith
  have 2: "cp < 0x10000 \<longrightarrow> q < 16" using e by linarith
  have 3: "p < 5" using lt e f by linarith
  have m: "a mod 64 = m1" using d(2) a by simp
  show ?thesis
    unfolding utf8_bytes_def using 1 2 3 e(2,4) f(2)
    by (auto simp: d g p a m)
qed

lemma utf16_roundtrip:
  "well_formed s \<Longrightarrow>
     concat (map utf16_units (code_points s)) = s \<and> (\<forall>cp\<in>set (code_points s). scalar cp)"
proof (induction s rule: code_points.induct)
  case 1
  then show ?case by simp
next
  case (2 u)
  then show ?case
    by (auto simp: lone_def utf16_units_def scalar_def high_surrogate_def low_surrogate_def)
next
  case (3 u v rest)
  show ?case
  proof (cases "high_surrogate u")
    case True
    with 3 have lv: "low_surrogate v" and wf: "well_formed rest" by simp_all
    with 3 True have IH: "concat (map utf16_units (code_points rest)) = rest
        \<and> (\<forall>cp\<in>set (code_points rest). scalar cp)" by simp
    define h where "h = u - 0xD800"
    define l where "l = v - 0xDC00"
    from True have u: "u = 0xD800 + h" and h: "h < 1024"
      unfolding high_surrogate_def h_def by linarith+
    from lv have v: "v = 0xDC00 + l" and l: "l < 1024"
      unfolding low_surrogate_def l_def by linarith+
    define cp where "cp = 0x10000 + h * 1024 + l"
    have cps: "code_points (u # v # rest) = cp # code_points rest"
      using True lv by (simp add: cp_def h_def l_def)
    have "(cp - 0x10000) div 1024 = h" "(cp - 0x10000) mod 1024 = l"
      using l by (simp_all add: cp_def)
    moreover have "\<not> cp < 0x10000" by (simp add: cp_def)
    ultimately have units: "utf16_units cp = [u, v]"
      by (simp add: utf16_units_def u v)
    have "scalar cp" using h l by (simp add: scalar_def cp_def)
    with IH cps units show ?thesis by simp
  next
    case False
    with 3 have u: "u < 0x10000" "\<not> low_surrogate u" and wf: "well_formed (v # rest)"
      by simp_all
    with 3 False have IH: "concat (map utf16_units (code_points (v # rest))) = v # rest
        \<and> (\<forall>cp\<in>set (code_points (v # rest)). scalar cp)" by simp
    have cps: "code_points (u # v # rest) = u # code_points (v # rest)"
      using False u by (simp add: lone_def)
    have "utf16_units u = [u]" using u by (simp add: utf16_units_def)
    moreover have "scalar u"
      using u False unfolding scalar_def high_surrogate_def low_surrogate_def by linarith
    ultimately show ?thesis using IH cps by simp
  qed
qed

lemma printable_well_formed: "\<forall>c\<in>set s. 32 \<le> c \<and> c \<le> 126 \<Longrightarrow> well_formed s"
  by (induction s rule: well_formed.induct)
     (auto simp: high_surrogate_def low_surrogate_def)

lemma decodeBase64_encode:
  assumes "well_formed s"
  shows "decodeBase64 (base64url_encode s) = s"
proof -
  from assms have u16: "concat (map utf16_units (code_points s)) = s"
    and sc: "\<forall>cp\<in>set (code_points s). scalar cp"
    using utf16_roundtrip by blast+
  define bytes where "bytes = Buffer_from_utf8 s"
  have bound: "\<forall>b\<in>set bytes. b < 256"
    using sc utf8_bytes_bound by (auto simp: bytes_def Buffer_from_utf8_def scalar_def)
  have "replace_char 95 47 (replace_char 45 43 (base64url_encode s)) = Buffer_toString_base64 bytes"
    unfolding base64url_encode_def bytes_def [symmetric]
    using base64_alphabet [OF bound] by (intro undo_urlsafe) simp_all
  then have "decodeBase64 (base64url_encode s) = Buffer_toString_utf8 bytes"
    by (simp add: decodeBase64_def base64_roundtrip [OF bound])
  also have "\<dots> = concat (map utf16_units (code_points s))"
    by (simp add: Buffer_toString_utf8_def bytes_def Buffer_from_utf8_def utf8_roundtrip [OF sc])
  finally show ?thesis using u16 by simp
qed

text \<open>
  Claim C6. Encoding a string in URL-safe base64 (its UTF-8 bytes in standard base64,
  with \<open>+\<close> replaced by \<open>-\<close> and \<open>/\<close> by \<open>_\<close>) and decoding the result with
  \<open>decodeBase64\<close> gives the string back, for every well-formed string and in particular
  for every string of printable ASCII characters.
\<close>

theorem decodeBase64_roundtrip:
  "(well_formed s \<longrightarrow> decodeBase64 (base64url_encode s) = s)
   \<and> ((\<forall>c\<in>set s. 32 \<le> c \<and> c \<le> 126) \<longrightarrow> decodeBase64 (base64url_encode s) = s)"
  using decodeBase64_encode printable_well_formed by blast

theorem decodeBase64_roundtrip_witness:
  "well_formed [104, 233, 0x20AC, 0xD83D, 0xDE00, 33]
   \<and> decodeBase64 (base64url_encode [104, 233, 0x20AC, 0xD83D, 0xDE00, 33])
       = [104, 233, 0x20AC, 0xD83D, 0xDE00, 33]
   \<and> base64url_encode (js ''??>???'') = js ''Pz8-Pz8_''
   \<and> decodeBase64 (js ''Pz8-Pz8_'') = js ''??>???''"
proof -
  have wf: "well_formed [104, 233, 0x20AC, 0xD83D, 0xDE00, 33]"
    by (simp add: high_surrogate_def low_surrogate_def)
  have pr: "\<forall>c\<in>set (js ''??>???''). 32 \<le> c \<and> c \<le> 126"
    by (simp add: js_def)
  have enc: "base64url_encode (js ''??>???'') = js ''Pz8-Pz8_''"
    by (simp add: base64url_encode_def Buffer_from_utf8_def js_def lone_def utf8_bytes_def
        high_surrogate_def low_surrogate_def base64_char_def)
  from wf pr enc
    decodeBase64_roundtrip [of "[104, 233, 0x20AC, 0xD83D, 0xDE00, 33]"]
    decodeBase64_roundtrip [of "js ''??>???''"]
  show ?thesis by simp
qed

section \<open>Message body extraction\<close>

lemma decode_hi: "decodeBase64 (js ''aGk='') = js ''hi''"
  by (simp add: decodeBase64_def js_def Buffer_from_base64_def replace_char_def
      Buffer_toString_utf8_def unbase64_def utf16_units_def)

lemma decode_html: "decodeBase64 (js ''PGI-eW88L2I-'') = js ''<b>yo</b>''"
  by (simp add: decodeBase64_def js_def Buffer_from_base64_def replace_char_def
      Buffer_toString_utf8_def unbase64_def utf16_units_def)

lemma strip_html_yo: "strip_html (js ''<b>yo</b>'') = js ''yo''"
  by (simp add: strip_html_def trim_def is_space_def js_def)

lemma prefer_plain_find:
  "prefer_plain ps = (case find plain_part ps of None \<Rightarrow> None | Some q \<Rightarrow> Some (part_content q))"
  by (induction ps) (auto simp: plain_part_def part_content_def split: option.splits)

lemma fallback_html_find:
  "fallback_html ps =
     (case find html_part ps of None \<Rightarrow> None | Some q \<Rightarrow> Some (strip_html (part_content q)))"
  by (induction ps) (auto simp: html_part_def part_content_def split: option.splits)

lemma recurse_nested_find:
  "recurse_nested ps = find (\<lambda>r. r \<noteq> []) (map extractBody_part ps)"
  by (induction ps) (auto simp: Let_def)

text \<open>
  Claim C1, as amended. A payload that is itself a plain-text part with content gives
  exactly its decoded content. A payload without content of its own is decided by its
  direct parts: the first plain-text part with content gives exactly its decoded
  content, whatever HTML parts stand beside it; without one, the first HTML part with
  content gives its content stripped of markup; without that, the result is the first
  non-empty result of extracting from the parts in order, and the empty string when
  there is none. A payload without content and without parts, and an absent payload,
  give the empty string.
\<close>

theorem extractBody_policy:
  "extractBody None = []
   \<and> (plain_part p \<longrightarrow> extractBody (Some p) = part_content p)
   \<and> (truthy_data (body p) = None \<and> parts p = None \<longrightarrow> extractBody (Some p) = [])
   \<and> (truthy_data (body p) = None \<and> parts p = Some ps \<longrightarrow>
        extractBody (Some p) =
          (case find plain_part ps of
             Some q \<Rightarrow> part_content q
           | None \<Rightarrow>
               (case find html_part ps of
                  Some q \<Rightarrow> strip_html (part_content q)
                | None \<Rightarrow>
                    (case find (\<lambda>r. r \<noteq> []) (map (\<lambda>q. extractBody (Some q)) ps) of
                       Some r \<Rightarrow> r
                     | None \<Rightarrow> []))))"
proof -
  have m: "map (\<lambda>q. extractBody (Some q)) ps = map extractBody_part ps"
    by (simp add: extractBody_def)
  show ?thesis
    unfolding m
    by (cases p)
       (auto simp: extractBody_def prefer_plain_find fallback_html_find recurse_nested_find
          plain_part_def part_content_def split: option.splits)
qed

theorem extractBody_policy_witness:
  "extractBody (Some
     (MessagePart (Some (js ''multipart/alternative'')) None None (Some
        [MessagePart (Some (js ''text/html'')) None
           (Some (MessagePartBody (Some (js ''PGI-eW88L2I-'')))) None,
         MessagePart (Some (js ''text/plain'')) None
           (Some (MessagePartBody (Some (js ''aGk='')))) None])))
   = js ''hi''
   \<and> extractBody (Some
       (MessagePart (Some (js ''text/plain'')) None
          (Some (MessagePartBody (Some (js ''aGk='')))) None))
     = js ''hi''"
proof -
  have t: "truthy_data (Some (MessagePartBody (Some (js ''aGk='')))) = Some (js ''aGk='')"
    "truthy_data (Some (MessagePartBody (Some (js ''PGI-eW88L2I-'')))) = Some (js ''PGI-eW88L2I-'')"
    "truthy_data None = None"
    by (simp_all add: truthy_data_def js_def)
  have ne: "js ''text/html'' \<noteq> js ''text/plain''"
    by (simp add: js_def)
  have root: "extractBody (Some
       (MessagePart (Some (js ''text/plain'')) None
          (Some (MessagePartBody (Some (js ''aGk='')))) None))
     = js ''hi''"
    using extractBody_policy [of
        "MessagePart (Some (js ''text/plain'')) None
          (Some (MessagePartBody (Some (js ''aGk='')))) None" "[]", THEN conjunct2,
        THEN conjunct1]
    by (simp add: plain_part_def part_content_def t decode_hi)
  have tier: "extractBody (Some
     (MessagePart (Some (js ''multipart/alternative'')) None None (Some
        [MessagePart (Some (js ''text/html'')) None
           (Some (MessagePartBody (Some (js ''PGI-eW88L2I-'')))) None,
         MessagePart (Some (js ''text/plain'')) None
           (Some (MessagePartBody (Some (js ''aGk='')))) None])))
   = js ''hi''"
    using extractBody_policy [of
        "MessagePart (Some (js ''multipart/alternative'')) None None (Some
          [MessagePart (Some (js ''text/html'')) None
             (Some (MessagePartBody (Some (js ''PGI-eW88L2I-'')))) None,
           MessagePart (Some (js ''text/plain'')) None
             (Some (MessagePartBody (Some (js ''aGk='')))) None])"
        "[MessagePart (Some (js ''text/html'')) None
             (Some (MessagePartBody (Some (js ''PGI-eW88L2I-'')))) None,
           MessagePart (Some (js ''text/plain'')) None
             (Some (MessagePartBody (Some (js ''aGk='')))) None]"]
    by (simp add: plain_part_def part_content_def t ne decode_hi)
  from tier root show ?thesis by (rule conjI)
qed

text \<open>
  The claim as first stated fails: here a plain-text part lies one level down, beside an
  HTML part at the top level, and the HTML part is what the extraction returns.
\<close>

theorem extractBody_counterexample:
  "MessagePart (Some (js ''text/plain'')) None (Some (MessagePartBody (Some (js ''aGk='')))) None
     \<in> set (descendants
         (MessagePart (Some (js ''multipart/mixed'')) None None (Some
           [MessagePart (Some (js ''multipart/alternative'')) None None (Some
              [MessagePart (Some (js ''text/plain'')) None
                 (Some (MessagePartBody (Some (js ''aGk='')))) None]),
            MessagePart (Some (js ''text/html'')) None
              (Some (MessagePartBody (Some (js ''PGI-eW88L2I-'')))) None])))
   \<and> plain_part
        (MessagePart (Some (js ''text/plain'')) None (Some (MessagePartBody (Some (js ''aGk='')))) None)
   \<and> part_content
        (MessagePart (Some (js ''text/plain'')) None (Some (MessagePartBody (Some (js ''aGk='')))) None)
       = js ''hi''
   \<and> extractBody (Some
         (MessagePart (Some (js ''multipart/mixed'')) None None (Some
           [MessagePart (Some (js ''multipart/alternative'')) None None (Some
              [MessagePart (Some (js ''text/plain'')) None
                 (Some (MessagePartBody (Some (js ''aGk='')))) None]),
            MessagePart (Some (js ''text/html'')) None
              (Some (MessagePartBody (Some (js ''PGI-eW88L2I-'')))) None])))
       = js ''yo''
   \<and> js ''yo'' \<noteq> js ''hi''"
proof -
  have t: "truthy_data (Some (MessagePartBody (Some (js ''aGk='')))) = Some (js ''aGk='')"
    "truthy_data (Some (MessagePartBody (Some (js ''PGI-eW88L2I-'')))) = Some (js ''PGI-eW88L2I-'')"
    "truthy_data None = None"
    by (simp_all add: truthy_data_def js_def)
  have ne: "js ''multipart/alternative'' \<noteq> js ''text/plain''"
    "js ''multipart/alternative'' \<noteq> js ''text/html''"
    "js ''text/html'' \<noteq> js ''text/plain''"
    by (simp_all add: js_def)
  show ?thesis
    by (simp add: extractBody_def plain_part_def part_content_def t ne decode_hi decode_html
        strip_html_yo) (simp add: js_def)
qed

section \<open>Listing with concurrent detail fetches\<close>

lemma those_eq_Some: "those xs = Some ys \<Longrightarrow> xs = map Some ys"
  by (induction xs arbitrary: ys) (auto split: option.splits)

lemma those_all_Some: "\<forall>x\<in>set xs. x \<noteq> None \<Longrightarrow> those xs \<noteq> None"
  by (induction xs) (auto split: option.splits)

lemma settle_slots:
  "settle order tasks slots = Inr slots' \<Longrightarrow> length slots = length tasks \<Longrightarrow>
   length slots' = length tasks
   \<and> (\<forall>j<length tasks.
         (j \<in> set order \<longrightarrow> map_option Inr (slots' ! j) = Some (tasks ! j))
         \<and> (j \<notin> set order \<longrightarrow> slots' ! j = slots ! j))"
proof (induction order arbitrary: slots)
  case Nil
  then show ?case by simp
next
  case (Cons i order)
  show ?case
  proof (cases "i < length tasks")
    case False
    with Cons.prems have "settle order tasks slots = Inr slots'" by simp
    from Cons.IH [OF this Cons.prems(2)] False show ?thesis by auto
  next
    case True
    with Cons.prems obtain v where v: "tasks ! i = Inr v"
      and s: "settle order tasks (slots[i := Some v]) = Inr slots'"
      by (auto split: sum.splits)
    from Cons.prems(2) have len: "length (slots[i := Some v]) = length tasks" by simp
    note IH = Cons.IH [OF s len]
    show ?thesis
    proof (intro conjI allI impI)
      show "length slots' = length tasks" using IH by simp
    next
      fix j assume j: "j < length tasks" and mem: "j \<in> set (i # order)"
      show "map_option Inr (slots' ! j) = Some (tasks ! j)"
      proof (cases "j \<in> set order")
        case True
        with IH j show ?thesis by simp
      next
        case False
        with mem have "j = i" by simp
        with IH j False Cons.prems(2) v show ?thesis by simp
      qed
    next
      fix j assume j: "j < length tasks" and "j \<notin> set (i # order)"
      then have "j \<notin> set order" "j \<noteq> i" by auto
      with IH j show "slots' ! j = slots ! j" by simp
    qed
  qed
qed

lemma Promise_all_fulfilled:
  assumes "Promise_all order tasks = Some (Inr vs)"
  shows "length vs = length tasks \<and> (\<forall>i<length tasks. tasks ! i = Inr (vs ! i))"
proof -
  from assms obtain slots where s: "settle order tasks (replicate (length tasks) None) = Inr slots"
    and t: "those slots = Some vs"
    by (auto simp: Promise_all_def split: sum.splits)
  from settle_slots [OF s] have len: "length slots = length tasks"
    and slots: "\<forall>j<length tasks.
         (j \<in> set order \<longrightarrow> map_option Inr (slots ! j) = Some (tasks ! j))
         \<and> (j \<notin> set order \<longrightarrow> slots ! j = replicate (length tasks) None ! j)"
    by simp_all
  from t have m: "slots = map Some vs" by (rule those_eq_Some)
  with len have lv: "length vs = length tasks" by simp
  have "tasks ! i = Inr (vs ! i)" if i: "i < length tasks" for i
  proof -
    from m lv i have si: "slots ! i = Some (vs ! i)" by simp
    show ?thesis
    proof (cases "i \<in> set order")
      case True
      with slots i si show ?thesis by auto
    next
      case False
      with slots i have "slots ! i = None" by simp
      with si show ?thesis by simp
    qed
  qed
  with lv show ?thesis by simp
qed

lemma Promise_all_settles:
  assumes "\<forall>i<length tasks. i \<in> set order"
  shows "Promise_all order tasks \<noteq> None"
proof (cases "settle order tasks (replicate (length tasks) None)")
  case (Inl e)
  then show ?thesis by (simp add: Promise_all_def)
next
  case (Inr slots)
  from settle_slots [OF Inr] have len: "length slots = length tasks"
    and slots: "\<forall>j<length tasks. j \<in> set order \<longrightarrow> map_option Inr (slots ! j) = Some (tasks ! j)"
    by simp_all
  have "\<forall>x\<in>set slots. x \<noteq> None"
  proof
    fix x assume "x \<in> set slots"
    then obtain j where j: "j < length slots" "slots ! j = x" by (auto simp: in_set_conv_nth)
    with len assms slots have "map_option Inr x = Some (tasks ! j)" by auto
    then show "x \<noteq> None" by auto
  qed
  then have "those slots \<noteq> None" by (rule those_all_Some)
  with Inr show ?thesis by (auto simp: Promise_all_def)
qed


lemma Promise_all_unique:
  assumes "Promise_all order tasks = Some (Inr vs)" "Promise_all order' tasks = Some (Inr vs')"
  shows "vs = vs'"
proof (rule nth_equalityI)
  from assms show "length vs = length vs'"
    by (auto dest!: Promise_all_fulfilled)
next
  fix i assume "i < length vs"
  with assms have "tasks ! i = Inr (vs ! i)" "tasks ! i = Inr (vs' ! i)"
    by (auto dest!: Promise_all_fulfilled)
  then show "vs ! i = vs' ! i" by simp
qed

lemma list_messages_success:
  assumes "gmail_list_messages stringify (Inr gmail) order params
             = Some (ToolResult c (Some output))"
  obtains response where "messages_list gmail (build_listParams params) = Inr response"
    and "Promise_all order (map (message_summary gmail) (or_empty (messages response)))
           = Some (Inr (out_messages output))"
    and "output = ListMessagesOutput (out_messages output) (length (out_messages output))
           (truthy (nextPageToken response))"
    and "c = [TextContent (if list_response_format params = MARKDOWN
                           then list_messages_markdown params output else stringify output)]"
  using assms
  by (auto simp: gmail_list_messages_def catch_result_def Let_def
      split: sum.splits option.splits)

lemma list_threads_success:
  assumes "gmail_list_threads stringify (Inr gmail) order params
             = Some (ToolResult c (Some output))"
  obtains response where "threads_list gmail (build_listParams params) = Inr response"
    and "Promise_all order (map (thread_summary gmail) (or_empty (threads response)))
           = Some (Inr (out_threads output))"
    and "output = ListThreadsOutput (out_threads output) (length (out_threads output))
           (truthy (threads_nextPageToken response))"
    and "c = [TextContent (if list_response_format params = MARKDOWN
                           then list_threads_markdown output else stringify output)]"
  using assms
  by (auto simp: gmail_list_threads_def catch_result_def Let_def
      split: sum.splits option.splits)

lemma settle_all_fulfilled:
  "\<forall>i<length tasks. \<exists>v. tasks ! i = Inr v \<Longrightarrow> \<exists>slots'. settle order tasks slots = Inr slots'"
proof (induction order arbitrary: slots)
  case Nil
  then show ?case by simp
next
  case (Cons i order)
  show ?case
  proof (cases "i < length tasks")
    case True
    with Cons.prems obtain v where "tasks ! i = Inr v" by blast
    with True Cons.IH [OF Cons.prems] show ?thesis by simp
  next
    case False
    with Cons.IH [OF Cons.prems] show ?thesis by simp
  qed
qed

lemma Promise_all_all_fulfilled:
  assumes "\<forall>i<length vs. i \<in> set order"
  shows "Promise_all order (map Inr vs) = Some (Inr vs)"
proof -
  let ?tasks = "map Inr vs :: (failure + 'a) list"
  have "\<forall>i<length ?tasks. \<exists>v. ?tasks ! i = Inr v" by simp
  then obtain slots where s: "settle order ?tasks (replicate (length ?tasks) None) = Inr slots"
    using settle_all_fulfilled by blast
  from assms have "Promise_all order ?tasks \<noteq> None"
    by (intro Promise_all_settles) simp
  with s obtain vs' where r: "Promise_all order ?tasks = Some (Inr vs')"
    by (auto simp: Promise_all_def)
  from Promise_all_fulfilled [OF r] have "length vs' = length vs"
    and "\<forall>i<length vs. vs ! i = vs' ! i" by simp_all
  then have "vs' = vs" by (intro nth_equalityI) simp_all
  with r show ?thesis by simp
qed

lemma list_messages_produce:
  assumes "messages_list gmail (build_listParams params) = Inr response"
    and "\<forall>i<length (or_empty (messages response)). i \<in> set order"
    and "map (message_summary gmail) (or_empty (messages response)) = map Inr msgs"
  shows "gmail_list_messages stringify (Inr gmail) order params
    = Some (ToolResult
        [TextContent
           (if list_response_format params = MARKDOWN
            then list_messages_markdown params
                   (ListMessagesOutput msgs (length msgs) (truthy (nextPageToken response)))
            else stringify
                   (ListMessagesOutput msgs (length msgs) (truthy (nextPageToken response))))]
        (Some (ListMessagesOutput msgs (length msgs) (truthy (nextPageToken response)))))"
proof -
  from assms(3) have "length (or_empty (messages response)) = length msgs"
    by (metis length_map)
  with assms(2) have "Promise_all order (map Inr msgs) = Some (Inr msgs)"
    by (intro Promise_all_all_fulfilled) simp
  with assms(1,3) show ?thesis
    by (simp add: gmail_list_messages_def Let_def)
qed

lemma list_threads_produce:
  assumes "threads_list gmail (build_listParams params) = Inr response"
    and "\<forall>i<length (or_empty (threads response)). i \<in> set order"
    and "map (thread_summary gmail) (or_empty (threads response)) = map Inr ths"
  shows "gmail_list_threads stringify (Inr gmail) order params
    = Some (ToolResult
        [TextContent
           (if list_response_format params = MARKDOWN
            then list_threads_markdown
                   (ListThreadsOutput ths (length ths) (truthy (threads_nextPageToken response)))
            else stringify
                   (ListThreadsOutput ths (length ths) (truthy (threads_nextPageToken response))))]
        (Some (ListThreadsOutput ths (length ths) (truthy (threads_nextPageToken response)))))"
proof -
  from assms(3) have "length (or_empty (threads response)) = length ths"
    by (metis length_map)
  with assms(2) have "Promise_all order (map Inr ths) = Some (Inr ths)"
    by (intro Promise_all_all_fulfilled) simp
  with assms(1,3) show ?thesis
    by (simp add: gmail_list_threads_def Let_def)
qed

text \<open>
  Claim C9. When every detail fetch of a message or thread listing succeeds and has
  settled, the handler returns the list of the summaries in the order of the list
  call's response: the i-th element of the returned list is the summary built from the
  detail fetch of the i-th listed item, for every i. The order in which the fetches
  settle plays no part: whenever a listing succeeds its list is in list-call order, two
  runs that differ only in the order of settlement return the same result, and the
  handler returns as soon as every fetch has settled.
\<close>

theorem list_enrichment_preserves_order:
  "(messages_list gmail (build_listParams params) = Inr response
      \<and> (\<forall>i<length (or_empty (messages response)). i \<in> set order)
      \<and> map (message_summary gmail) (or_empty (messages response)) = map Inr msgs
    \<longrightarrow> gmail_list_messages stringify (Inr gmail) order params
      = Some (ToolResult
          [TextContent
             (if list_response_format params = MARKDOWN
              then list_messages_markdown params
                     (ListMessagesOutput msgs (length msgs) (truthy (nextPageToken response)))
              else stringify
                     (ListMessagesOutput msgs (length msgs) (truthy (nextPageToken response))))]
          (Some (ListMessagesOutput msgs (length msgs) (truthy (nextPageToken response))))))
   \<and> (threads_list gmail (build_listParams params) = Inr tresponse
      \<and> (\<forall>i<length (or_empty (threads tresponse)). i \<in> set order)
      \<and> map (thread_summary gmail) (or_empty (threads tresponse)) = map Inr ths
    \<longrightarrow> gmail_list_threads tstringify (Inr gmail) order params
      = Some (ToolResult
          [TextContent
             (if list_response_format params = MARKDOWN
              then list_threads_markdown
                     (ListThreadsOutput ths (length ths) (truthy (threads_nextPageToken tresponse)))
              else tstringify
                     (ListThreadsOutput ths (length ths) (truthy (threads_nextPageToken tresponse))))]
          (Some (ListThreadsOutput ths (length ths) (truthy (threads_nextPageToken tresponse))))))
   \<and> (messages_list gmail (build_listParams params) = Inr response
      \<and> gmail_list_messages stringify (Inr gmail) order params
            = Some (ToolResult c (Some out))
    \<longrightarrow> length (out_messages out) = length (or_empty (messages response))
      \<and> (\<forall>i<length (or_empty (messages response)).
             message_summary gmail (or_empty (messages response) ! i)
               = Inr (out_messages out ! i)))
   \<and> (threads_list gmail (build_listParams params) = Inr tresponse
      \<and> gmail_list_threads tstringify (Inr gmail) order params
            = Some (ToolResult tc (Some tout))
    \<longrightarrow> length (out_threads tout) = length (or_empty (threads tresponse))
      \<and> (\<forall>i<length (or_empty (threads tresponse)).
             thread_summary gmail (or_empty (threads tresponse) ! i)
               = Inr (out_threads tout ! i)))
   \<and> (gmail_list_messages stringify (Inr gmail) order params
            = Some (ToolResult c (Some out))
      \<and> gmail_list_messages stringify (Inr gmail) order' params
            = Some (ToolResult c' (Some out'))
    \<longrightarrow> out' = out \<and> c' = c)
   \<and> (gmail_list_threads tstringify (Inr gmail) order params
            = Some (ToolResult tc (Some tout))
      \<and> gmail_list_threads tstringify (Inr gmail) order' params
            = Some (ToolResult tc' (Some tout'))
    \<longrightarrow> tout' = tout \<and> tc' = tc)
   \<and> (messages_list gmail (build_listParams params) = Inr response
      \<and> (\<forall>i<length (or_empty (messages response)). i \<in> set order)
    \<longrightarrow> gmail_list_messages stringify (Inr gmail) order params \<noteq> None)
   \<and> (threads_list gmail (build_listParams params) = Inr tresponse
      \<and> (\<forall>i<length (or_empty (threads tresponse)). i \<in> set order)
    \<longrightarrow> gmail_list_threads tstringify (Inr gmail) order params \<noteq> None)"
proof (intro conjI impI; (elim conjE)?)
  assume "messages_list gmail (build_listParams params) = Inr response"
    "\<forall>i<length (or_empty (messages response)). i \<in> set order"
    "map (message_summary gmail) (or_empty (messages response)) = map Inr msgs"
  then show "gmail_list_messages stringify (Inr gmail) order params
      = Some (ToolResult
          [TextContent
             (if list_response_format params = MARKDOWN
              then list_messages_markdown params
                     (ListMessagesOutput msgs (length msgs) (truthy (nextPageToken response)))
              else stringify
                     (ListMessagesOutput msgs (length msgs) (truthy (nextPageToken response))))]
          (Some (ListMessagesOutput msgs (length msgs) (truthy (nextPageToken response)))))"
    by (rule list_messages_produce)
next
  assume "threads_list gmail (build_listParams params) = Inr tresponse"
    "\<forall>i<length (or_empty (threads tresponse)). i \<in> set order"
    "map (thread_summary gmail) (or_empty (threads tresponse)) = map Inr ths"
  then show "gmail_list_threads tstringify (Inr gmail) order params
      = Some (ToolResult
          [TextContent
             (if list_response_format params = MARKDOWN
              then list_threads_markdown
                     (ListThreadsOutput ths (length ths) (truthy (threads_nextPageToken tresponse)))
              else tstringify
                     (ListThreadsOutput ths (length ths) (truthy (threads_nextPageToken tresponse))))]
          (Some (ListThreadsOutput ths (length ths) (truthy (threads_nextPageToken tresponse)))))"
    by (rule list_threads_produce)
next
  assume l: "messages_list gmail (build_listParams params) = Inr response"
    and h: "gmail_list_messages stringify (Inr gmail) order params
            = Some (ToolResult c (Some out))"
  from h l have "Promise_all order (map (message_summary gmail) (or_empty (messages response)))
           = Some (Inr (out_messages out))"
    by (auto elim!: list_messages_success)
  from Promise_all_fulfilled [OF this]
  show "length (out_messages out) = length (or_empty (messages response))"
    and "\<forall>i<length (or_empty (messages response)).
             message_summary gmail (or_empty (messages response) ! i)
               = Inr (out_messages out ! i)"
    by simp_all
next
  assume l: "threads_list gmail (build_listParams params) = Inr tresponse"
    and h: "gmail_list_threads tstringify (Inr gmail) order params
            = Some (ToolResult tc (Some tout))"
  from h l have "Promise_all order (map (thread_summary gmail) (or_empty (threads tresponse)))
           = Some (Inr (out_threads tout))"
    by (auto elim!: list_threads_success)
  from Promise_all_fulfilled [OF this]
  show "length (out_threads tout) = length (or_empty (threads tresponse))"
    and "\<forall>i<length (or_empty (threads tresponse)).
             thread_summary gmail (or_empty (threads tresponse) ! i)
               = Inr (out_threads tout ! i)"
    by simp_all
next
  assume h: "gmail_list_messages stringify (Inr gmail) order params
            = Some (ToolResult c (Some out))"
    and h': "gmail_list_messages stringify (Inr gmail) order' params
            = Some (ToolResult c' (Some out'))"
  from h obtain r where r: "messages_list gmail (build_listParams params) = Inr r"
    "Promise_all order (map (message_summary gmail) (or_empty (messages r)))
       = Some (Inr (out_messages out))"
    "out = ListMessagesOutput (out_messages out) (length (out_messages out))
       (truthy (nextPageToken r))"
    "c = [TextContent (if list_response_format params = MARKDOWN
                       then list_messages_markdown params out else stringify out)]"
    by (rule list_messages_success)
  from h' obtain r' where r': "messages_list gmail (build_listParams params) = Inr r'"
    "Promise_all order' (map (message_summary gmail) (or_empty (messages r')))
       = Some (Inr (out_messages out'))"
    "out' = ListMessagesOutput (out_messages out') (length (out_messages out'))
       (truthy (nextPageToken r'))"
    "c' = [TextContent (if list_response_format params = MARKDOWN
                        then list_messages_markdown params out' else stringify out')]"
    by (rule list_messages_success)
  from r(1) r'(1) have same: "r' = r" by simp
  with r(2) r'(2) have "out_messages out = out_messages out'"
    by (auto intro: Promise_all_unique)
  with r(3) r'(3) same have o: "out' = out" by simp
  with r(4) r'(4) show "out' = out" and "c' = c" by simp_all
next
  assume h: "gmail_list_threads tstringify (Inr gmail) order params
            = Some (ToolResult tc (Some tout))"
    and h': "gmail_list_threads tstringify (Inr gmail) order' params
            = Some (ToolResult tc' (Some tout'))"
  from h obtain r where r: "threads_list gmail (build_listParams params) = Inr r"
    "Promise_all order (map (thread_summary gmail) (or_empty (threads r)))
       = Some (Inr (out_threads tout))"
    "tout = ListThreadsOutput (out_threads tout) (length (out_threads tout))
       (truthy (threads_nextPageToken r))"
    "tc = [TextContent (if list_response_format params = MARKDOWN
                        then list_threads_markdown tout else tstringify tout)]"
    by (rule list_threads_success)
  from h' obtain r' where r': "threads_list gmail (build_listParams params) = Inr r'"
    "Promise_all order' (map (thread_summary gmail) (or_empty (threads r')))
       = Some (Inr (out_threads tout'))"
    "tout' = ListThreadsOutput (out_threads tout') (length (out_threads tout'))
       (truthy (threads_nextPageToken r'))"
    "tc' = [TextContent (if list_response_format params = MARKDOWN
                         then list_threads_markdown tout' else tstringify tout')]"
    by (rule list_threads_success)
  from r(1) r'(1) have same: "r' = r" by simp
  with r(2) r'(2) have "out_threads tout = out_threads tout'"
    by (auto intro: Promise_all_unique)
  with r(3) r'(3) same have o: "tout' = tout" by simp
  with r(4) r'(4) show "tout' = tout" and "tc' = tc" by simp_all
next
  assume l: "messages_list gmail (build_listParams params) = Inr response"
    and a: "\<forall>i<length (or_empty (messages response)). i \<in> set order"
  from a have "Promise_all order (map (message_summary gmail) (or_empty (messages response))) \<noteq> None"
    by (intro Promise_all_settles) simp
  with l show "gmail_list_messages stringify (Inr gmail) order params \<noteq> None"
    by (auto simp: gmail_list_messages_def Let_def split: sum.splits option.splits)
next
  assume l: "threads_list gmail (build_listParams params) = Inr tresponse"
    and a: "\<forall>i<length (or_empty (threads tresponse)). i \<in> set order"
  from a have "Promise_all order (map (thread_summary gmail) (or_empty (threads tresponse))) \<noteq> None"
    by (intro Promise_all_settles) simp
  with l show "gmail_list_threads tstringify (Inr gmail) order params \<noteq> None"
    by (auto simp: gmail_list_threads_def Let_def split: sum.splits option.splits)
qed


theorem list_enrichment_preserves_order_witness:
  "gmail_list_messages (\<lambda>_. [])
      (Inr (GmailClient
         (\<lambda>_. Inr (ListMessagesResponse
                     (Some [MessageRef (Some (js ''a'')) None, MessageRef (Some (js ''b'')) None])
                     None))
         (\<lambda>g. Inr (Message None (get_id g) None None None))
         (\<lambda>_. Inr (ListThreadsResponse
                     (Some [ThreadRef (Some (js ''s'')) (Some (js ''x'')),
                            ThreadRef (Some (js ''t'')) (Some (js ''y''))])
                     None))
         (\<lambda>_. Inr (Thread None None))
         (\<lambda>_. Inl (Error []))))
      [1, 0] (ListInput None 10 None None JSON)
    = Some (ToolResult [TextContent []]
        (Some (ListMessagesOutput
           [MessageData (js ''a'') [] None None None None (js ''a'') [],
            MessageData (js ''b'') [] None None None None (js ''b'') []] 2 None)))
   \<and> gmail_list_threads (\<lambda>_. [])
      (Inr (GmailClient
         (\<lambda>_. Inr (ListMessagesResponse
                     (Some [MessageRef (Some (js ''a'')) None, MessageRef (Some (js ''b'')) None])
                     None))
         (\<lambda>g. Inr (Message None (get_id g) None None None))
         (\<lambda>_. Inr (ListThreadsResponse
                     (Some [ThreadRef (Some (js ''s'')) (Some (js ''x'')),
                            ThreadRef (Some (js ''t'')) (Some (js ''y''))])
                     None))
         (\<lambda>_. Inr (Thread None None))
         (\<lambda>_. Inl (Error []))))
      [1, 0] (ListInput None 10 None None JSON)
    = Some (ToolResult [TextContent []]
        (Some (ListThreadsOutput
           [ThreadData (js ''s'') (js ''(no subject)'') (js ''Unknown'') [] (js ''x'') 0,
            ThreadData (js ''t'') (js ''(no subject)'') (js ''Unknown'') [] (js ''y'') 0]
           2 None)))"
proof -
  let ?refs = "[MessageRef (Some (js ''a'')) None, MessageRef (Some (js ''b'')) None]"
  let ?response = "ListMessagesResponse (Some ?refs) None"
  let ?trefs = "[ThreadRef (Some (js ''s'')) (Some (js ''x'')),
                 ThreadRef (Some (js ''t'')) (Some (js ''y''))]"
  let ?tresponse = "ListThreadsResponse (Some ?trefs) None"
  let ?gmail = "GmailClient (\<lambda>_. Inr ?response) (\<lambda>g. Inr (Message None (get_id g) None None None))
         (\<lambda>_. Inr ?tresponse) (\<lambda>_. Inr (Thread None None)) (\<lambda>_. Inl (Error []))"
  let ?params = "ListInput None 10 None None JSON"
  let ?msgs = "[MessageData (js ''a'') [] None None None None (js ''a'') [],
            MessageData (js ''b'') [] None None None None (js ''b'') []]"
  let ?ths = "[ThreadData (js ''s'') (js ''(no subject)'') (js ''Unknown'') [] (js ''x'') 0,
            ThreadData (js ''t'') (js ''(no subject)'') (js ''Unknown'') [] (js ''y'') 0]"
  have ne: "js ''a'' \<noteq> []" "js ''b'' \<noteq> []" "js ''s'' \<noteq> []" "js ''t'' \<noteq> []"
    "js ''x'' \<noteq> []" "js ''y'' \<noteq> []"
    by (simp_all add: js_def)
  have lst: "messages_list ?gmail (build_listParams ?params) = Inr ?response"
    by simp
  have tlst: "threads_list ?gmail (build_listParams ?params) = Inr ?tresponse"
    by simp
  have all: "\<forall>i<length (or_empty (messages ?response)). i \<in> set [1, 0]"
    by (auto simp: or_empty_def)
  have tall: "\<forall>i<length (or_empty (threads ?tresponse)). i \<in> set [1, 0]"
    by (auto simp: or_empty_def)
  have sums: "map (message_summary ?gmail) (or_empty (messages ?response)) = map Inr ?msgs"
    by (simp add: message_summary_def or_empty_def or_else_def getHeader_def ne)
  have tsums: "map (thread_summary ?gmail) (or_empty (threads ?tresponse)) = map Inr ?ths"
    by (simp add: thread_summary_def message_headers_def or_empty_def or_else_def
        getHeader_def ne)
  have m: "gmail_list_messages (\<lambda>_. []) (Inr ?gmail) [1, 0] ?params
    = Some (ToolResult [TextContent []] (Some (ListMessagesOutput ?msgs 2 None)))"
    using list_enrichment_preserves_order [where gmail = ?gmail and params = ?params
        and response = ?response and order = "[1, 0]" and msgs = ?msgs
        and stringify = "\<lambda>_. []", THEN conjunct1] lst all sums
    by (simp add: truthy_def)
  have t: "gmail_list_threads (\<lambda>_. []) (Inr ?gmail) [1, 0] ?params
    = Some (ToolResult [TextContent []] (Some (ListThreadsOutput ?ths 2 None)))"
    using list_enrichment_preserves_order [where gmail = ?gmail and params = ?params
        and tresponse = ?tresponse and order = "[1, 0]" and ths = ?ths
        and tstringify = "\<lambda>_. []", THEN conjunct2, THEN conjunct1] tlst tall tsums
    by (simp add: truthy_def)
  from m t show ?thesis by (rule conjI)
qed

section \<open>The order of the labels\<close>

lemma mset_insert_sorted: "mset (insert_sorted cmp x ys) = add_mset x (mset ys)"
  by (induction ys) auto

lemma mset_Array_sort: "mset (Array_sort cmp xs) = mset xs"
  by (induction xs) (auto simp: Array_sort_def mset_insert_sorted)

lemma set_insert_sorted: "set (insert_sorted cmp x ys) = insert x (set ys)"
  by (induction ys) auto

lemma sorted_insert_sorted:
  assumes total: "\<And>a b. cmp a b \<le> 0 \<or> cmp b a \<le> 0"
    and trans: "\<And>a b c. cmp a b \<le> 0 \<Longrightarrow> cmp b c \<le> 0 \<Longrightarrow> cmp a c \<le> 0"
  shows "sorted_wrt (\<lambda>a b. cmp a b \<le> 0) ys \<Longrightarrow>
         sorted_wrt (\<lambda>a b. cmp a b \<le> 0) (insert_sorted cmp x ys)"
proof (induction ys)
  case Nil
  then show ?case by simp
next
  case (Cons y ys)
  show ?case
  proof (cases "cmp x y \<le> 0")
    case True
    with Cons.prems trans show ?thesis by auto
  next
    case False
    with total have "cmp y x \<le> 0" by blast
    with False Cons show ?thesis by (auto simp: set_insert_sorted)
  qed
qed

lemma sorted_Array_sort:
  assumes total: "\<And>a b. cmp a b \<le> 0 \<or> cmp b a \<le> 0"
    and trans: "\<And>a b c. cmp a b \<le> 0 \<Longrightarrow> cmp b c \<le> 0 \<Longrightarrow> cmp a c \<le> 0"
  shows "sorted_wrt (\<lambda>a b. cmp a b \<le> 0) (Array_sort cmp xs)"
proof (induction xs)
  case Nil
  show ?case by (simp add: Array_sort_def)
next
  case (Cons x xs)
  have "Array_sort cmp (x # xs) = insert_sorted cmp x (Array_sort cmp xs)"
    by (simp add: Array_sort_def)
  with Cons sorted_insert_sorted [of cmp, OF total trans] show ?case by simp
qed

lemma compare_labels_total:
  assumes "\<forall>a b. lc a b \<le> 0 \<or> lc b a \<le> 0"
  shows "compare_labels lc a b \<le> 0 \<or> compare_labels lc b a \<le> 0"
  using assms by (auto simp: compare_labels_def)

lemma compare_labels_trans:
  assumes "\<forall>a b c. lc a b \<le> 0 \<and> lc b c \<le> 0 \<longrightarrow> lc a c \<le> 0"
    and "compare_labels lc a b \<le> 0" "compare_labels lc b c \<le> 0"
  shows "compare_labels lc a c \<le> 0"
  using assms(2,3) assms(1) [rule_format, of "ld_name a" "ld_name b" "ld_name c"]
  by (auto simp: compare_labels_def split: if_splits)

lemma compare_code_units_total: "compare_code_units a b \<le> 0 \<or> compare_code_units b a \<le> 0"
  by (induction a b rule: compare_code_units.induct) auto

lemma compare_code_units_trans:
  "compare_code_units a b \<le> 0 \<Longrightarrow> compare_code_units b c \<le> 0 \<Longrightarrow> compare_code_units a c \<le> 0"
proof (induction a arbitrary: b c)
  case Nil
  then show ?case by (cases c) auto
next
  case (Cons x xs)
  then show ?case
    by (cases b; cases c) (auto split: if_splits)
qed

text \<open>
  Claim C7. Whatever the input order of the labels, the sorted list is a permutation of
  the input, every label of type \<open>system\<close> comes before every other label, the system
  labels are in the order of \<open>localeCompare\<close> on their names, and so are the remaining
  labels. \<open>localeCompare\<close> is any consistent comparison: of two names one does not
  compare greater than the other, and not comparing greater is transitive.
\<close>

theorem labels_sorted:
  assumes total: "\<forall>a b. localeCompare a b \<le> 0 \<or> localeCompare b a \<le> 0"
    and trans: "\<forall>a b c. localeCompare a b \<le> 0 \<and> localeCompare b c \<le> 0 \<longrightarrow> localeCompare a c \<le> 0"
  shows "mset (Array_sort (compare_labels localeCompare) labels) = mset labels
    \<and> (\<forall>i j. i < j \<and> j < length labels
           \<and> ld_type (Array_sort (compare_labels localeCompare) labels ! j) = js ''system''
         \<longrightarrow> ld_type (Array_sort (compare_labels localeCompare) labels ! i) = js ''system'')
    \<and> sorted_wrt (\<lambda>a b. localeCompare (ld_name a) (ld_name b) \<le> 0)
         (filter (\<lambda>l. ld_type l = js ''system'') (Array_sort (compare_labels localeCompare) labels))
    \<and> sorted_wrt (\<lambda>a b. localeCompare (ld_name a) (ld_name b) \<le> 0)
         (filter (\<lambda>l. ld_type l \<noteq> js ''system'') (Array_sort (compare_labels localeCompare) labels))"
proof -
  define out where "out = Array_sort (compare_labels localeCompare) labels"
  define le where "le = (\<lambda>a b. compare_labels localeCompare a b \<le> 0)"
  have perm: "mset out = mset labels" by (simp add: out_def mset_Array_sort)
  then have len: "length out = length labels" by (rule mset_eq_length)
  have sorted: "sorted_wrt le out"
    unfolding out_def le_def
    by (rule sorted_Array_sort)
       (use compare_labels_total [OF total] compare_labels_trans [OF trans] in blast)+
  have sys: "ld_type (out ! i) = js ''system''"
    if "i < j" "j < length labels" "ld_type (out ! j) = js ''system''" for i j
  proof (rule ccontr)
    assume "ld_type (out ! i) \<noteq> js ''system''"
    with that have "compare_labels localeCompare (out ! i) (out ! j) = 1"
      by (simp add: compare_labels_def)
    moreover from sorted that len have "le (out ! i) (out ! j)"
      by (simp add: sorted_wrt_iff_nth_less)
    ultimately show False by (simp add: le_def)
  qed
  have s1: "sorted_wrt (\<lambda>a b. localeCompare (ld_name a) (ld_name b) \<le> 0)
         (filter (\<lambda>l. ld_type l = js ''system'') out)"
  proof (rule sorted_wrt_mono_rel [OF _ sorted_wrt_filter [OF sorted]])
    fix x y
    assume "x \<in> set (filter (\<lambda>l. ld_type l = js ''system'') out)"
      "y \<in> set (filter (\<lambda>l. ld_type l = js ''system'') out)" "le x y"
    then show "localeCompare (ld_name x) (ld_name y) \<le> 0"
      by (simp add: le_def compare_labels_def)
  qed
  have s2: "sorted_wrt (\<lambda>a b. localeCompare (ld_name a) (ld_name b) \<le> 0)
         (filter (\<lambda>l. ld_type l \<noteq> js ''system'') out)"
  proof (rule sorted_wrt_mono_rel [OF _ sorted_wrt_filter [OF sorted]])
    fix x y
    assume "x \<in> set (filter (\<lambda>l. ld_type l \<noteq> js ''system'') out)"
      "y \<in> set (filter (\<lambda>l. ld_type l \<noteq> js ''system'') out)" "le x y"
    then show "localeCompare (ld_name x) (ld_name y) \<le> 0"
      by (simp add: le_def compare_labels_def)
  qed
  from perm sys s1 s2 show ?thesis unfolding out_def by blast
qed

theorem labels_sorted_witness:
  "Array_sort (compare_labels compare_code_units)
        [LabelData (js ''L1'') (js ''Work'') (js ''user''),
         LabelData (js ''SENT'') (js ''SENT'') (js ''system''),
         LabelData (js ''L2'') (js ''Family'') (js ''user''),
         LabelData (js ''INBOX'') (js ''INBOX'') (js ''system'')]
       = [LabelData (js ''INBOX'') (js ''INBOX'') (js ''system''),
          LabelData (js ''SENT'') (js ''SENT'') (js ''system''),
          LabelData (js ''L2'') (js ''Family'') (js ''user''),
          LabelData (js ''L1'') (js ''Work'') (js ''user'')]
   \<and> sorted_wrt (\<lambda>a b. compare_code_units (ld_name a) (ld_name b) \<le> 0)
        (filter (\<lambda>l. ld_type l \<noteq> js ''system'')
          [LabelData (js ''INBOX'') (js ''INBOX'') (js ''system''),
           LabelData (js ''SENT'') (js ''SENT'') (js ''system''),
           LabelData (js ''L2'') (js ''Family'') (js ''user''),
           LabelData (js ''L1'') (js ''Work'') (js ''user'')])"
proof -
  let ?labels = "[LabelData (js ''L1'') (js ''Work'') (js ''user''),
         LabelData (js ''SENT'') (js ''SENT'') (js ''system''),
         LabelData (js ''L2'') (js ''Family'') (js ''user''),
         LabelData (js ''INBOX'') (js ''INBOX'') (js ''system'')]"
  have total: "\<forall>a b. compare_code_units a b \<le> 0 \<or> compare_code_units b a \<le> 0"
    using compare_code_units_total by blast
  have trans: "\<forall>a b c. compare_code_units a b \<le> 0 \<and> compare_code_units b c \<le> 0
         \<longrightarrow> compare_code_units a c \<le> 0"
    using compare_code_units_trans by blast
  have run: "Array_sort (compare_labels compare_code_units) ?labels
       = [LabelData (js ''INBOX'') (js ''INBOX'') (js ''system''),
          LabelData (js ''SENT'') (js ''SENT'') (js ''system''),
          LabelData (js ''L2'') (js ''Family'') (js ''user''),
          LabelData (js ''L1'') (js ''Work'') (js ''user'')]"
    by (simp add: Array_sort_def compare_labels_def js_def)
  note s = labels_sorted [OF total trans, of ?labels, THEN conjunct2, THEN conjunct2,
      THEN conjunct2]
  have s': "sorted_wrt (\<lambda>a b. compare_code_units (ld_name a) (ld_name b) \<le> 0)
        (filter (\<lambda>l. ld_type l \<noteq> js ''system'')
          [LabelData (js ''INBOX'') (js ''INBOX'') (js ''system''),
           LabelData (js ''SENT'') (js ''SENT'') (js ''system''),
           LabelData (js ''L2'') (js ''Family'') (js ''user''),
           LabelData (js ''L1'') (js ''Work'') (js ''user'')])"
    using s unfolding run .
  show ?thesis by (intro conjI run s')
qed

section \<open>The character budget of the markdown renderings\<close>

lemma join_snoc: "xs \<noteq> [] \<Longrightarrow> join sep (xs @ [x]) = join sep xs @ sep @ x"
  by (induction sep xs rule: join.induct) auto

lemma header_nonempty: "get_document_header out \<noteq> []"
  by (simp add: get_document_header_def)

text \<open>
  Claim C3, as amended. \<open>sheets_get_values\<close> returns, in markdown format, the rendering
  of the values cut to the budget: whenever the rendering is longer than 25,000
  characters, the returned string is its first 25,000 characters followed by the
  marker, so its length is 25,000 plus the length of the marker and its first 25,000
  characters are those of the untruncated rendering. In \<open>docs_get_document\<close> the budget
  applies to the extracted text content alone: when that is longer than 25,000
  characters, the returned string is the header, the first 25,000 characters of the
  content and the marker; otherwise it is the untruncated rendering; in both cases it
  agrees with the untruncated rendering on the first 25,000 characters.
  \<open>sheets_batch_get_values\<close> cuts its rendering as \<open>sheets_get_values\<close> does.
  \<open>gmail_list_threads\<close> returns its markdown rendering whole, whatever its length.
\<close>

theorem markdown_truncation:
  "(CHARACTER_LIMIT < length (formatValuesAsMarkdown (Some (out_values vo)) (out_range vo)) \<longrightarrow>
      get_values_textOutput vstringify MARKDOWN vo
        = take CHARACTER_LIMIT (formatValuesAsMarkdown (Some (out_values vo)) (out_range vo))
            @ nl @ nl @ js ''[Data truncated...]''
      \<and> length (get_values_textOutput vstringify MARKDOWN vo)
            = CHARACTER_LIMIT + length (nl @ nl @ js ''[Data truncated...]'')
      \<and> take CHARACTER_LIMIT (get_values_textOutput vstringify MARKDOWN vo)
            = take CHARACTER_LIMIT (formatValuesAsMarkdown (Some (out_values vo)) (out_range vo)))
   \<and> (CHARACTER_LIMIT < length (textContent d) \<longrightarrow>
      get_document_textOutput dstringify MARKDOWN d
        = join nl (get_document_header d) @ nl @ take CHARACTER_LIMIT (textContent d)
            @ nl @ nl @ js ''[Content truncated...]''
      \<and> length (get_document_textOutput dstringify MARKDOWN d)
            = length (join nl (get_document_header d) @ nl) + CHARACTER_LIMIT
                + length (nl @ nl @ js ''[Content truncated...]''))
   \<and> take CHARACTER_LIMIT (get_document_textOutput dstringify MARKDOWN d)
        = take CHARACTER_LIMIT (get_document_untruncated d)
   \<and> (length (textContent d) \<le> CHARACTER_LIMIT \<longrightarrow>
        get_document_textOutput dstringify MARKDOWN d = get_document_untruncated d)
   \<and> (gmail_list_threads tstringify (Inr gmail) order params
          = Some (ToolResult c (Some threads_out))
        \<and> list_response_format params = MARKDOWN
      \<longrightarrow> c = [TextContent (list_threads_markdown threads_out)])
   \<and> (values_get sheets (spreadsheet_id vp) (in_range vp) (major_dimension vp) = Inr vdata \<longrightarrow>
        sheets_get_values vstringify (Some sheets) vp
          = ToolResult
              [TextContent (get_values_textOutput vstringify (response_format vp)
                              (get_values_output vp vdata))]
              (Some (get_values_output vp vdata)))
   \<and> (documents_get docs (document_id dp) = Inr doc \<longrightarrow>
        docs_get_document dstringify (Some docs) dp
          = ToolResult
              [TextContent (get_document_textOutput dstringify (doc_response_format dp)
                              (get_document_output dp doc))]
              (Some (get_document_output dp doc)))
   \<and> (threads_list gmail (build_listParams params) = Inr tresponse
        \<and> (\<forall>i<length (or_empty (threads tresponse)). i \<in> set order)
        \<and> map (thread_summary gmail) (or_empty (threads tresponse)) = map Inr ths
        \<and> list_response_format params = MARKDOWN
      \<longrightarrow> gmail_list_threads tstringify (Inr gmail) order params
        = Some (ToolResult
            [TextContent
               (list_threads_markdown
                  (ListThreadsOutput ths (length ths) (truthy (threads_nextPageToken tresponse))))]
            (Some (ListThreadsOutput ths (length ths) (truthy (threads_nextPageToken tresponse))))))
   \<and> (values_batchGet sheets (bg_spreadsheet_id bgp) (bg_ranges bgp) (bg_major_dimension bgp)
          = Inr bgdata
        \<and> bg_response_format bgp = MARKDOWN \<longrightarrow>
        sheets_batch_get_values bstringify (Some sheets) bgp
          = ToolResult
              [TextContent (batch_get_values_markdown (batch_get_values_output bgp bgdata))]
              (Some (batch_get_values_output bgp bgdata)))
   \<and> (CHARACTER_LIMIT < length (batch_get_values_untruncated bo) \<longrightarrow>
        batch_get_values_markdown bo
          = take CHARACTER_LIMIT (batch_get_values_untruncated bo)
              @ nl @ nl @ js ''[Data truncated...]''
        \<and> length (batch_get_values_markdown bo)
              = CHARACTER_LIMIT + length (nl @ nl @ js ''[Data truncated...]'')
        \<and> take CHARACTER_LIMIT (batch_get_values_markdown bo)
              = take CHARACTER_LIMIT (batch_get_values_untruncated bo))"
proof -
  let ?h = "join nl (get_document_header d) @ nl"
  have v: "get_values_textOutput vstringify MARKDOWN vo
        = take CHARACTER_LIMIT (formatValuesAsMarkdown (Some (out_values vo)) (out_range vo))
            @ nl @ nl @ js ''[Data truncated...]''"
    if "CHARACTER_LIMIT < length (formatValuesAsMarkdown (Some (out_values vo)) (out_range vo))"
    using that by (simp add: get_values_textOutput_def get_values_markdown_def Let_def)
  have un: "get_document_untruncated d = ?h @ textContent d"
    by (simp add: get_document_untruncated_def join_snoc header_nonempty)
  have long: "get_document_textOutput dstringify MARKDOWN d
        = ?h @ take CHARACTER_LIMIT (textContent d) @ nl @ nl @ js ''[Content truncated...]''"
    if "CHARACTER_LIMIT < length (textContent d)"
    using that
    by (simp add: get_document_textOutput_def get_document_markdown_def join_snoc header_nonempty)
  have short: "get_document_textOutput dstringify MARKDOWN d = get_document_untruncated d"
    if "length (textContent d) \<le> CHARACTER_LIMIT"
    using that
    by (simp add: get_document_textOutput_def get_document_markdown_def
        get_document_untruncated_def)
  have pre: "take CHARACTER_LIMIT (get_document_textOutput dstringify MARKDOWN d)
        = take CHARACTER_LIMIT (get_document_untruncated d)"
  proof (cases "CHARACTER_LIMIT < length (textContent d)")
    case True
    have "take CHARACTER_LIMIT (?h @ take CHARACTER_LIMIT (textContent d) @ nl @ nl @ js ''[Content truncated...]'')
        = take CHARACTER_LIMIT ?h @ take (CHARACTER_LIMIT - length ?h) (take CHARACTER_LIMIT (textContent d))"
      using True by (simp del: append_assoc)
    also have "\<dots> = take CHARACTER_LIMIT (?h @ textContent d)"
      by (simp add: min_def del: append_assoc)
    finally show ?thesis using long [OF True] un by simp
  next
    case False
    then show ?thesis using short by simp
  qed
  have g: "c = [TextContent (list_threads_markdown threads_out)]"
    if "gmail_list_threads tstringify (Inr gmail) order params
          = Some (ToolResult c (Some threads_out))"
      "list_response_format params = MARKDOWN"
    using that by (auto elim!: list_threads_success)
  have vl: "length (take CHARACTER_LIMIT (formatValuesAsMarkdown (Some (out_values vo)) (out_range vo))
            @ nl @ nl @ js ''[Data truncated...]'')
        = CHARACTER_LIMIT + length (nl @ nl @ js ''[Data truncated...]'')"
    if "CHARACTER_LIMIT < length (formatValuesAsMarkdown (Some (out_values vo)) (out_range vo))"
    using that by simp
  have dl: "length (?h @ take CHARACTER_LIMIT (textContent d) @ nl @ nl @ js ''[Content truncated...]'')
        = length ?h + CHARACTER_LIMIT + length (nl @ nl @ js ''[Content truncated...]'')"
    if "CHARACTER_LIMIT < length (textContent d)"
    using that by simp
  show ?thesis
  proof (intro conjI impI; (elim conjE)?)
    assume a: "CHARACTER_LIMIT < length (formatValuesAsMarkdown (Some (out_values vo)) (out_range vo))"
    show "get_values_textOutput vstringify MARKDOWN vo
        = take CHARACTER_LIMIT (formatValuesAsMarkdown (Some (out_values vo)) (out_range vo))
            @ nl @ nl @ js ''[Data truncated...]''"
      by (rule v [OF a])
    show "length (get_values_textOutput vstringify MARKDOWN vo)
            = CHARACTER_LIMIT + length (nl @ nl @ js ''[Data truncated...]'')"
      unfolding v [OF a] by (rule vl [OF a])
    show "take CHARACTER_LIMIT (get_values_textOutput vstringify MARKDOWN vo)
            = take CHARACTER_LIMIT (formatValuesAsMarkdown (Some (out_values vo)) (out_range vo))"
      unfolding v [OF a] using a by simp
  next
    assume a: "CHARACTER_LIMIT < length (textContent d)"
    show "get_document_textOutput dstringify MARKDOWN d
        = join nl (get_document_header d) @ nl @ take CHARACTER_LIMIT (textContent d)
            @ nl @ nl @ js ''[Content truncated...]''"
      using long [OF a] by simp
    show "length (get_document_textOutput dstringify MARKDOWN d)
            = length (join nl (get_document_header d) @ nl) + CHARACTER_LIMIT
                + length (nl @ nl @ js ''[Content truncated...]'')"
      unfolding long [OF a] by (rule dl [OF a])
  next
    show "take CHARACTER_LIMIT (get_document_textOutput dstringify MARKDOWN d)
        = take CHARACTER_LIMIT (get_document_untruncated d)"
      by (rule pre)
  next
    assume "length (textContent d) \<le> CHARACTER_LIMIT"
    then show "get_document_textOutput dstringify MARKDOWN d = get_document_untruncated d"
      by (rule short)
  next
    assume "gmail_list_threads tstringify (Inr gmail) order params
          = Some (ToolResult c (Some threads_out))"
      "list_response_format params = MARKDOWN"
    then show "c = [TextContent (list_threads_markdown threads_out)]"
      by (rule g)
  next
    assume "values_get sheets (spreadsheet_id vp) (in_range vp) (major_dimension vp) = Inr vdata"
    then show "sheets_get_values vstringify (Some sheets) vp
          = ToolResult
              [TextContent (get_values_textOutput vstringify (response_format vp)
                              (get_values_output vp vdata))]
              (Some (get_values_output vp vdata))"
      by (simp add: sheets_get_values_def getClient_def Let_def)
  next
    assume "documents_get docs (document_id dp) = Inr doc"
    then show "docs_get_document dstringify (Some docs) dp
          = ToolResult
              [TextContent (get_document_textOutput dstringify (doc_response_format dp)
                              (get_document_output dp doc))]
              (Some (get_document_output dp doc))"
      by (simp add: docs_get_document_def getClient_def Let_def)
  next
    assume "threads_list gmail (build_listParams params) = Inr tresponse"
      "\<forall>i<length (or_empty (threads tresponse)). i \<in> set order"
      "map (thread_summary gmail) (or_empty (threads tresponse)) = map Inr ths"
      and f: "list_response_format params = MARKDOWN"
    then show "gmail_list_threads tstringify (Inr gmail) order params
        = Some (ToolResult
            [TextContent
               (list_threads_markdown
                  (ListThreadsOutput ths (length ths) (truthy (threads_nextPageToken tresponse))))]
            (Some (ListThreadsOutput ths (length ths) (truthy (threads_nextPageToken tresponse)))))"
      by (simp add: list_threads_produce)
  next
    assume "values_batchGet sheets (bg_spreadsheet_id bgp) (bg_ranges bgp) (bg_major_dimension bgp)
          = Inr bgdata"
      "bg_response_format bgp = MARKDOWN"
    then show "sheets_batch_get_values bstringify (Some sheets) bgp
          = ToolResult
              [TextContent (batch_get_values_markdown (batch_get_values_output bgp bgdata))]
              (Some (batch_get_values_output bgp bgdata))"
      by (simp add: sheets_batch_get_values_def getClient_def Let_def)
  next
    assume a: "CHARACTER_LIMIT < length (batch_get_values_untruncated bo)"
    then have b: "batch_get_values_markdown bo
          = take CHARACTER_LIMIT (batch_get_values_untruncated bo)
              @ nl @ nl @ js ''[Data truncated...]''"
      by (simp add: batch_get_values_markdown_def Let_def)
    show "batch_get_values_markdown bo
          = take CHARACTER_LIMIT (batch_get_values_untruncated bo)
              @ nl @ nl @ js ''[Data truncated...]''"
      by (rule b)
    show "length (batch_get_values_markdown bo)
              = CHARACTER_LIMIT + length (nl @ nl @ js ''[Data truncated...]'')"
      unfolding b using a by simp
    show "take CHARACTER_LIMIT (batch_get_values_markdown bo)
              = take CHARACTER_LIMIT (batch_get_values_untruncated bo)"
      unfolding b using a by simp
  qed
qed


theorem markdown_truncation_witness:
  "sheets_get_values (\<lambda>_. [])
      (Some (SheetsClient (\<lambda>_ _. Inl (Error []))
               (\<lambda>_ _ _. Inr (ValueRange (Some (js ''A1'')) None
                                (Some [[JString (replicate 25000 97)]])))
               (\<lambda>_ _ _. Inl (Error [])) (\<lambda>_ _ _ _. Inl (Error []))
               (\<lambda>_ _ _ _ _. Inl (Error [])) (\<lambda>_. Inl (Error []))
               (\<lambda>_ _. Inl (Error [])) (\<lambda>_ _. Inl (Error []))))
      (GetValuesInput (js ''id'') (js ''A1'') (js ''ROWS'') MARKDOWN)
     = ToolResult
         [TextContent
            (js ''## Data from A1'' @ nl @ nl @ js ''| Col 1 |'' @ nl @ js ''| --- |'' @ nl
               @ js ''| '' @ replicate 24963 97 @ nl @ nl @ js ''[Data truncated...]'')]
         (Some (GetValuesOutput (js ''A1'') (js ''ROWS'') [[JString (replicate 25000 97)]]))
   \<and> docs_get_document (\<lambda>_. [])
      (Some (DocsClient
               (\<lambda>_. Inr (Document (Some (js ''d'')) (Some (js ''T''))
                  (Some (Body (Some [StructuralElement
                     (Some (Paragraph (Some [ParagraphElement
                        (Some (TextRun (Some (replicate 25001 97))))])))
                     None])))
                  None))
               (\<lambda>_. Inl (Error [])) (\<lambda>_ _. Inl (Error []))))
      (GetDocumentInput (js ''d'') MARKDOWN)
     = ToolResult
         [TextContent
            (js ''# T'' @ nl @ nl @ js ''**Document ID**: d'' @ nl @ js ''**Revision ID**: N/A'' @ nl
               @ nl @ js ''## Content'' @ nl @ nl @ replicate 25000 97 @ nl @ nl
               @ js ''[Content truncated...]'')]
         (Some (GetDocumentOutput (js ''d'') (js ''T'') (replicate 25001 97) None))
   \<and> gmail_list_threads (\<lambda>_. [])
        (Inr (GmailClient (\<lambda>_. Inl (Error [])) (\<lambda>_. Inl (Error []))
           (\<lambda>_. Inr (ListThreadsResponse
                       (Some [ThreadRef (Some (js ''t'')) (Some (replicate 25000 97))]) None))
           (\<lambda>_. Inr (Thread None None))
           (\<lambda>_. Inl (Error []))))
        [0] (ListInput None 10 None None MARKDOWN)
     = Some (ToolResult
         [TextContent
            (js ''# Gmail Threads'' @ nl @ nl @ js ''Found 1 thread(s).'' @ nl @ nl
               @ js ''### (no subject)'' @ nl @ js ''- **From**: Unknown'' @ nl
               @ js ''- **Messages**: 0'' @ nl @ js ''- **Last activity**: '' @ nl
               @ js ''- **ID**: '' @ [96] @ js ''t'' @ [96] @ nl
               @ js ''- **Preview**: '' @ replicate 25000 97 @ nl)]
         (Some (ListThreadsOutput [ThreadData (js ''t'') (js ''(no subject)'') (js ''Unknown'') [] (replicate 25000 97) 0] 1 None)))"
proof -
  let ?d = "GetDocumentOutput (js ''d'') (js ''T'') (replicate 25001 97) None"
  let ?doc = "(Document (Some (js ''d'')) (Some (js ''T''))
                  (Some (Body (Some [StructuralElement
                     (Some (Paragraph (Some [ParagraphElement
                        (Some (TextRun (Some (replicate 25001 97))))])))
                     None])))
                  None)"
  let ?docs = "(DocsClient
               (\<lambda>_. Inr (Document (Some (js ''d'')) (Some (js ''T''))
                  (Some (Body (Some [StructuralElement
                     (Some (Paragraph (Some [ParagraphElement
                        (Some (TextRun (Some (replicate 25001 97))))])))
                     None])))
                  None))
               (\<lambda>_. Inl (Error [])) (\<lambda>_ _. Inl (Error [])))"
  let ?dp = "GetDocumentInput (js ''d'') MARKDOWN"
  let ?data = "ValueRange (Some (js ''A1'')) None (Some [[JString (replicate 25000 97)]])"
  let ?sheets = "(SheetsClient (\<lambda>_ _. Inl (Error []))
               (\<lambda>_ _ _. Inr (ValueRange (Some (js ''A1'')) None
                                (Some [[JString (replicate 25000 97)]])))
               (\<lambda>_ _ _. Inl (Error [])) (\<lambda>_ _ _ _. Inl (Error []))
               (\<lambda>_ _ _ _ _. Inl (Error [])) (\<lambda>_. Inl (Error []))
               (\<lambda>_ _. Inl (Error [])) (\<lambda>_ _. Inl (Error [])))"
  let ?vp = "GetValuesInput (js ''id'') (js ''A1'') (js ''ROWS'') MARKDOWN"
  let ?vo = "GetValuesOutput (js ''A1'') (js ''ROWS'') [[JString (replicate 25000 97)]]"
  let ?n = "js ''## Data from A1'' @ nl @ nl @ js ''| Col 1 |'' @ nl @ js ''| --- |'' @ nl
               @ js ''| '' @ replicate 25000 97 @ js '' |''"
  let ?tresponse = "ListThreadsResponse
      (Some [ThreadRef (Some (js ''t'')) (Some (replicate 25000 97))]) None"
  let ?gmail = "(GmailClient (\<lambda>_. Inl (Error [])) (\<lambda>_. Inl (Error []))
           (\<lambda>_. Inr (ListThreadsResponse
                       (Some [ThreadRef (Some (js ''t'')) (Some (replicate 25000 97))]) None))
           (\<lambda>_. Inr (Thread None None))
           (\<lambda>_. Inl (Error [])))"
  let ?params = "ListInput None 10 None None MARKDOWN"
  let ?td = "ThreadData (js ''t'') (js ''(no subject)'') (js ''Unknown'') [] (replicate 25000 97) 0"
  have long: "CHARACTER_LIMIT < length (textContent ?d)"
    by (simp add: CHARACTER_LIMIT_def)
  have h: "join nl (get_document_header ?d) @ nl
      = js ''# T'' @ nl @ nl @ js ''**Document ID**: d'' @ nl @ js ''**Revision ID**: N/A'' @ nl
           @ nl @ js ''## Content'' @ nl @ nl"
    by (simp add: get_document_header_def or_else_def js_def nl_def)
  have t: "take CHARACTER_LIMIT (textContent ?d) = replicate 25000 97"
    by (simp add: CHARACTER_LIMIT_def)
  note inst = markdown_truncation [where vo = ?vo and vstringify = "\<lambda>_. []" and d = ?d
      and dstringify = "\<lambda>_. []" and sheets = ?sheets and vp = ?vp and vdata = ?data
      and docs = ?docs and dp = ?dp and doc = ?doc
      and gmail = ?gmail and params = ?params and tresponse = ?tresponse
      and ths = "[?td]" and tstringify = "\<lambda>_. []" and order = "[0]"]
  have "get_document_textOutput (\<lambda>_. []) MARKDOWN ?d
        = (join nl (get_document_header ?d) @ nl) @ take CHARACTER_LIMIT (textContent ?d)
            @ nl @ nl @ js ''[Content truncated...]''"
    using inst [THEN conjunct2, THEN conjunct1] long by simp
  then have docs_text: "get_document_textOutput (\<lambda>_. []) MARKDOWN ?d
       = js ''# T'' @ nl @ nl @ js ''**Document ID**: d'' @ nl @ js ''**Revision ID**: N/A'' @ nl
               @ nl @ js ''## Content'' @ nl @ nl @ replicate 25000 97 @ nl @ nl
               @ js ''[Content truncated...]''"
    unfolding h t by simp
  have dout: "get_document_output ?dp ?doc = ?d"
    by (simp add: get_document_output_def extractTextFromBody_def or_else_def js_def)
  have dcall: "documents_get ?docs (document_id ?dp) = Inr ?doc"
    by simp
  have drf: "doc_response_format ?dp = MARKDOWN"
    by simp
  have "docs_get_document (\<lambda>_. []) (Some ?docs) ?dp
      = ToolResult
          [TextContent (get_document_textOutput (\<lambda>_. []) (doc_response_format ?dp)
                          (get_document_output ?dp ?doc))]
          (Some (get_document_output ?dp ?doc))"
    using inst [THEN conjunct2, THEN conjunct2, THEN conjunct2, THEN conjunct2, THEN conjunct2,
        THEN conjunct2, THEN conjunct1] dcall
    by blast
  then have docs: "docs_get_document (\<lambda>_. []) (Some ?docs) ?dp
     = ToolResult
         [TextContent
            (js ''# T'' @ nl @ nl @ js ''**Document ID**: d'' @ nl @ js ''**Revision ID**: N/A'' @ nl
               @ nl @ js ''## Content'' @ nl @ nl @ replicate 25000 97 @ nl @ nl
               @ js ''[Content truncated...]'')]
         (Some ?d)"
    unfolding dout drf docs_text .
  have out: "get_values_output ?vp ?data = ?vo"
    by (simp add: get_values_output_def or_else_def or_empty_def js_def)
  have n: "formatValuesAsMarkdown (Some (out_values ?vo)) (out_range ?vo) = ?n"
    by (simp add: formatValuesAsMarkdown_def formatValuesLines_def cell_text_def
        enumerate_eq_zip digits.simps js_def)
  have nlong: "CHARACTER_LIMIT < length ?n"
    by (simp add: CHARACTER_LIMIT_def js_def nl_def)
  have cut: "take CHARACTER_LIMIT ?n
      = js ''## Data from A1'' @ nl @ nl @ js ''| Col 1 |'' @ nl @ js ''| --- |'' @ nl
               @ js ''| '' @ replicate 24963 97"
    by (simp add: CHARACTER_LIMIT_def js_def nl_def)
  have cut_text: "get_values_textOutput (\<lambda>_. []) MARKDOWN ?vo
      = take CHARACTER_LIMIT ?n @ nl @ nl @ js ''[Data truncated...]''"
    using inst [THEN conjunct1] nlong unfolding n by simp
  have rf: "response_format ?vp = MARKDOWN"
    by simp
  have call: "values_get ?sheets (spreadsheet_id ?vp) (in_range ?vp) (major_dimension ?vp)
      = Inr ?data"
    by simp
  have "sheets_get_values (\<lambda>_. []) (Some ?sheets) ?vp
      = ToolResult
          [TextContent (get_values_textOutput (\<lambda>_. []) (response_format ?vp)
                          (get_values_output ?vp ?data))]
          (Some (get_values_output ?vp ?data))"
    using inst [THEN conjunct2, THEN conjunct2, THEN conjunct2, THEN conjunct2, THEN conjunct2,
        THEN conjunct1] call
    by blast
  then have sheets: "sheets_get_values (\<lambda>_. []) (Some ?sheets) ?vp
     = ToolResult
         [TextContent
            (js ''## Data from A1'' @ nl @ nl @ js ''| Col 1 |'' @ nl @ js ''| --- |'' @ nl
               @ js ''| '' @ replicate 24963 97 @ nl @ nl @ js ''[Data truncated...]'')]
         (Some ?vo)"
    unfolding out rf cut_text cut by (simp only: append_assoc)
  have ne: "js ''t'' \<noteq> []" "replicate 25000 (97::nat) \<noteq> []"
    by (simp_all add: js_def)
  have tcall: "threads_list ?gmail (build_listParams ?params) = Inr ?tresponse"
    by simp
  have settled: "\<forall>i<length (or_empty (threads ?tresponse)). i \<in> set [0]"
    by (simp add: or_empty_def)
  have summaries: "map (thread_summary ?gmail) (or_empty (threads ?tresponse)) = map Inr [?td]"
    by (simp add: thread_summary_def message_headers_def or_empty_def or_else_def getHeader_def ne)
  have trf: "list_response_format ?params = MARKDOWN"
    by simp
  have tnext: "truthy (threads_nextPageToken ?tresponse) = None"
    by (simp add: truthy_def)
  have len1: "length [?td] = 1"
    by simp
  have rendering: "list_threads_markdown (ListThreadsOutput [?td] 1 None)
      = js ''# Gmail Threads'' @ nl @ nl @ js ''Found 1 thread(s).'' @ nl @ nl
               @ js ''### (no subject)'' @ nl @ js ''- **From**: Unknown'' @ nl
               @ js ''- **Messages**: 0'' @ nl @ js ''- **Last activity**: '' @ nl
               @ js ''- **ID**: '' @ [96] @ js ''t'' @ [96] @ nl
               @ js ''- **Preview**: '' @ replicate 25000 97 @ nl"
    by (simp add: list_threads_markdown_def digits.simps js_def nl_def)
  have "gmail_list_threads (\<lambda>_. []) (Inr ?gmail) [0] ?params
        = Some (ToolResult
            [TextContent
               (list_threads_markdown
                  (ListThreadsOutput [?td] (length [?td]) (truthy (threads_nextPageToken ?tresponse))))]
            (Some (ListThreadsOutput [?td] (length [?td]) (truthy (threads_nextPageToken ?tresponse)))))"
    using inst [THEN conjunct2, THEN conjunct2, THEN conjunct2, THEN conjunct2, THEN conjunct2,
        THEN conjunct2, THEN conjunct2, THEN conjunct1] tcall settled summaries trf
    by blast
  then have gmail: "gmail_list_threads (\<lambda>_. []) (Inr ?gmail) [0] ?params
     = Some (ToolResult
         [TextContent
            (js ''# Gmail Threads'' @ nl @ nl @ js ''Found 1 thread(s).'' @ nl @ nl
               @ js ''### (no subject)'' @ nl @ js ''- **From**: Unknown'' @ nl
               @ js ''- **Messages**: 0'' @ nl @ js ''- **Last activity**: '' @ nl
               @ js ''- **ID**: '' @ [96] @ js ''t'' @ [96] @ nl
               @ js ''- **Preview**: '' @ replicate 25000 97 @ nl)]
         (Some (ListThreadsOutput [?td] 1 None)))"
    unfolding tnext len1 rendering .
  from sheets docs gmail show ?thesis by (intro conjI)
qed

text \<open>
  The claim as first stated fails for \<open>docs_get_document\<close>: with a text content of
  25,001 characters the rendering is longer than the limit, and the returned string is
  longer than 25,000 characters plus the marker, since the header is not counted:
  25,082 characters instead of 25,024. It fails for \<open>gmail_list_threads\<close> too: a
  thread with a preview of 25,000 characters is rendered in 25,144 characters, and all
  of them are returned.
\<close>

theorem markdown_truncation_counterexample:
  "CHARACTER_LIMIT
     < length (get_document_untruncated
         (GetDocumentOutput (js ''d'') (js ''T'') (replicate 25001 97) None))
   \<and> length (get_document_markdown
         (GetDocumentOutput (js ''d'') (js ''T'') (replicate 25001 97) None))
       = 25082
   \<and> CHARACTER_LIMIT + length (nl @ nl @ js ''[Content truncated...]'') = 25024
   \<and> length (get_document_markdown
         (GetDocumentOutput (js ''d'') (js ''T'') (replicate 25001 97) None))
       \<noteq> CHARACTER_LIMIT + length (nl @ nl @ js ''[Content truncated...]'')
   \<and> gmail_list_threads (\<lambda>_. [])
        (Inr (GmailClient (\<lambda>_. Inl (Error [])) (\<lambda>_. Inl (Error []))
           (\<lambda>_. Inr (ListThreadsResponse
                       (Some [ThreadRef (Some (js ''t'')) (Some (replicate 25000 97))]) None))
           (\<lambda>_. Inr (Thread None None))
           (\<lambda>_. Inl (Error []))))
        [0] (ListInput None 10 None None MARKDOWN)
       = Some (ToolResult
           [TextContent
              (list_threads_markdown
                 (ListThreadsOutput
                    [ThreadData (js ''t'') (js ''(no subject)'') (js ''Unknown'') []
                       (replicate 25000 97) 0] 1 None))]
           (Some (ListThreadsOutput
                    [ThreadData (js ''t'') (js ''(no subject)'') (js ''Unknown'') []
                       (replicate 25000 97) 0] 1 None)))
   \<and> length (list_threads_markdown
         (ListThreadsOutput
            [ThreadData (js ''t'') (js ''(no subject)'') (js ''Unknown'') []
               (replicate 25000 97) 0] 1 None))
       = 25144"
proof -
  have docs: "CHARACTER_LIMIT
     < length (get_document_untruncated
         (GetDocumentOutput (js ''d'') (js ''T'') (replicate 25001 97) None))
   \<and> length (get_document_markdown
         (GetDocumentOutput (js ''d'') (js ''T'') (replicate 25001 97) None))
       = 25082
   \<and> CHARACTER_LIMIT + length (nl @ nl @ js ''[Content truncated...]'') = 25024
   \<and> length (get_document_markdown
         (GetDocumentOutput (js ''d'') (js ''T'') (replicate 25001 97) None))
       \<noteq> CHARACTER_LIMIT + length (nl @ nl @ js ''[Content truncated...]'')"
    by (simp add: get_document_untruncated_def get_document_markdown_def
        get_document_header_def CHARACTER_LIMIT_def or_else_def nl_def js_def)
  have ne: "js ''t'' \<noteq> []" "replicate 25000 (97::nat) \<noteq> []"
    by (simp_all add: js_def)
  have run: "gmail_list_threads (\<lambda>_. [])
        (Inr (GmailClient (\<lambda>_. Inl (Error [])) (\<lambda>_. Inl (Error []))
           (\<lambda>_. Inr (ListThreadsResponse
                       (Some [ThreadRef (Some (js ''t'')) (Some (replicate 25000 97))]) None))
           (\<lambda>_. Inr (Thread None None))
           (\<lambda>_. Inl (Error []))))
        [0] (ListInput None 10 None None MARKDOWN)
       = Some (ToolResult
           [TextContent
              (list_threads_markdown
                 (ListThreadsOutput
                    [ThreadData (js ''t'') (js ''(no subject)'') (js ''Unknown'') []
                       (replicate 25000 97) 0] 1 None))]
           (Some (ListThreadsOutput
                    [ThreadData (js ''t'') (js ''(no subject)'') (js ''Unknown'') []
                       (replicate 25000 97) 0] 1 None)))"
    by (simp add: gmail_list_threads_def Promise_all_def thread_summary_def Let_def
        message_headers_def or_empty_def or_else_def truthy_def getHeader_def ne)
  have len: "length (list_threads_markdown
         (ListThreadsOutput
            [ThreadData (js ''t'') (js ''(no subject)'') (js ''Unknown'') []
               (replicate 25000 97) 0] 1 None))
       = 25144"
    by (simp add: list_threads_markdown_def digits.simps nl_def js_def)
  from docs run len show ?thesis by (simp only: simp_thms)
qed

section \<open>The envelope of a tool result\<close>







section \<open>The query of the file search\<close>

lemma read_quoted_quote: "read_quoted (39 # rest) = Some ([], rest)"
  by (cases rest) simp_all

lemma read_quoted_escaped:
  "read_quoted (92 # d # rest) = map_option (\<lambda>(s, after). (92 # d # s, after)) (read_quoted rest)"
  by (simp split: option.splits)

lemma read_quoted_plain:
  "c \<noteq> 39 \<Longrightarrow> c \<noteq> 92 \<Longrightarrow> rest \<noteq> [] \<Longrightarrow>
   read_quoted (c # rest) = map_option (\<lambda>(s, after). (c # s, after)) (read_quoted rest)"
  by (cases rest) (simp_all split: option.splits)

lemma read_quoted_escape_quotes:
  "92 \<notin> set s \<Longrightarrow> read_quoted (escape_quotes s @ 39 # rest) = Some (escape_quotes s, rest)"
proof (induction s)
  case Nil
  show ?case by (simp add: escape_quotes_def read_quoted_quote)
next
  case (Cons c s)
  then have IH: "read_quoted (escape_quotes s @ 39 # rest) = Some (escape_quotes s, rest)"
    and c: "c \<noteq> 92" by simp_all
  show ?case
  proof (cases "c = 39")
    case True
    then have "escape_quotes (c # s) = 92 # 39 # escape_quotes s"
      by (simp add: escape_quotes_def)
    then show ?thesis by (simp add: read_quoted_escaped IH del: read_quoted.simps)
  next
    case False
    then have "escape_quotes (c # s) = c # escape_quotes s"
      by (simp add: escape_quotes_def)
    then show ?thesis
      using False c by (simp add: read_quoted_plain IH del: read_quoted.simps)
  qed
qed

lemma search_q_all:
  "mime_type params = js ''all'' \<Longrightarrow>
   search_q params = js ''trashed = false and fullText contains '' @ [39]
                       @ escape_quotes (search_query params) @ [39]"
  by (simp add: search_q_def)

text \<open>
  Claim C10, at the input where it fails. The constructed query quotes the user's query
  with every single quote replaced by a backslash and the quote, and leaves backslashes
  as they are. For the query made of a backslash and a single quote, the quoted string
  of the constructed query holds two backslashes and a quote: the two backslashes read
  as one escaped backslash, and the quote that came from the user's query closes the
  string, before the closing quote that the code appends.
\<close>

theorem search_q_backslash_quote:
  "search_q (SearchFilesInput [92, 39] 20 None (js ''all'') MARKDOWN)
     = js ''trashed = false and fullText contains '' @ [39] @ [92, 92, 39] @ [39]
   \<and> escape_quotes [92, 39] = [92, 92, 39]
   \<and> read_quoted ([92, 92, 39] @ [39]) = Some ([92, 92], [39])"
  by (simp add: search_q_def escape_quotes_def)

end
